theory Spec2Isabelle
  imports Main "HOL-Library.Word" "HOL-Library.Signed_Division"
begin

unbundle bit_operations_syntax

section \<open>Basic types, panics and the result type\<close>

type_synonym addr = "16 word"
type_synonym byte = "8 word"

text \<open>
  Go's \<^verbatim>\<open>uint8\<close> and \<^verbatim>\<open>uint16\<close> are words that wrap around. Go's \<^verbatim>\<open>int\<close> has 64 bits;
  the counters of that type (\<open>frameTick\<close>, \<open>dmaCycleCount\<close>, the loop indices) stay far
  below that bound, so they are modelled as \<open>int\<close>.

  Every \<^verbatim>\<open>panic\<close> of the Go source, and the run-time panic of an out-of-range
  slice index, is a value of the type \<open>error\<close>. A fallible function returns
  \<open>error + 'a\<close>.
\<close>

datatype error =
    UnexpectedAddress addr
  | IndexOutOfRange
  | DMAAlreadyActive byte
  | DuplicateSubscriber addr
  | InvalidTileID byte
  | UnknownTileDataTable addr

definition bindE :: "error + 'a \<Rightarrow> ('a \<Rightarrow> error + 'b) \<Rightarrow> error + 'b" where
  "bindE r f = (case r of Inl e \<Rightarrow> Inl e | Inr x \<Rightarrow> f x)"

text \<open>Go slice indexing: a read or a store outside the slice panics.\<close>

definition idx :: "'a list \<Rightarrow> nat \<Rightarrow> error + 'a" where
  "idx xs i = (if i < length xs then Inr (xs ! i) else Inl IndexOutOfRange)"

definition upd :: "'a list \<Rightarrow> nat \<Rightarrow> 'a \<Rightarrow> error + 'a list" where
  "upd xs i v = (if i < length xs then Inr (xs[i := v]) else Inl IndexOutOfRange)"

section \<open>The memory map\<close>

text \<open>
  Modelled from the spec: the address constants (\<^verbatim>\<open>bank0ROMAddr\<close>, ...) are used by
  \<^verbatim>\<open>mmu.go\<close> but declared in a file that is not part of the sources at hand. The spec
  gives the regions as half-open intervals: ROM bank 0 \<open>[0x0000,0x4000)\<close>, switchable ROM \<open>[0x4000,0x8000)\<close>, VRAM
  \<open>[0x8000,0xA000)\<close>, external RAM \<open>[0xA000,0xC000)\<close>, work RAM \<open>[0xC000,0xE000)\<close>, echo
  \<open>[0xE000,0xFE00)\<close>, OAM \<open>[0xFE00,0xFEA0)\<close>, invalid \<open>[0xFEA0,0xFF00)\<close>, I/O
  \<open>[0xFF00,0xFF80)\<close> and HRAM \<open>[0xFF80,0xFFFF]\<close>. The buffer sizes that \<^verbatim>\<open>newMMU\<close>
  computes from the constants agree with these bounds.
\<close>

definition bank0ROMAddr :: addr where "bank0ROMAddr = 0x0000"
definition bankedROMAddr :: addr where "bankedROMAddr = 0x4000"
definition videoRAMAddr :: addr where "videoRAMAddr = 0x8000"
definition bankedRAMAddr :: addr where "bankedRAMAddr = 0xA000"
definition ramAddr :: addr where "ramAddr = 0xC000"
definition ramMirrorAddr :: addr where "ramMirrorAddr = 0xE000"
definition oamRAMAddr :: addr where "oamRAMAddr = 0xFE00"
definition invalidArea2Addr :: addr where "invalidArea2Addr = 0xFEA0"
definition ioAddr :: addr where "ioAddr = 0xFF00"
definition hramAddr :: addr where "hramAddr = 0xFF80"
definition lastAddr :: addr where "lastAddr = 0xFFFF"

text \<open>Modelled from the spec: the memory-mapped registers of its register table.\<close>

definition dividerAddr :: addr where "dividerAddr = 0xFF04"
definition timaAddr :: addr where "timaAddr = 0xFF05"
definition tmaAddr :: addr where "tmaAddr = 0xFF06"
definition tacAddr :: addr where "tacAddr = 0xFF07"
definition ifAddr :: addr where "ifAddr = 0xFF0F"
definition lcdcAddr :: addr where "lcdcAddr = 0xFF40"
definition statAddr :: addr where "statAddr = 0xFF41"
definition scrollYAddr :: addr where "scrollYAddr = 0xFF42"
definition scrollXAddr :: addr where "scrollXAddr = 0xFF43"
definition lyAddr :: addr where "lyAddr = 0xFF44"
definition dmaAddr :: addr where "dmaAddr = 0xFF46"
definition bgpAddr :: addr where "bgpAddr = 0xFF47"
definition ieAddr :: addr where "ieAddr = 0xFFFF"

text \<open>
  Modelled from the spec: the region predicates, which \<^verbatim>\<open>mmu.at\<close> and
  \<^verbatim>\<open>mmu.setNoNotify\<close> call but which are not declared in the sources at hand. Each is
  the interval the spec gives for its region; HRAM includes \<open>0xFFFF\<close>, the
  interrupt-enable register (\<^verbatim>\<open>newMMU\<close> sizes the HRAM buffer \<open>lastAddr - hramAddr + 1\<close>).
\<close>

definition inBank0ROMArea :: "addr \<Rightarrow> bool" where
  "inBank0ROMArea a \<longleftrightarrow> a < bankedROMAddr"
definition inBankedROMArea :: "addr \<Rightarrow> bool" where
  "inBankedROMArea a \<longleftrightarrow> bankedROMAddr \<le> a \<and> a < videoRAMAddr"
definition inVideoRAMArea :: "addr \<Rightarrow> bool" where
  "inVideoRAMArea a \<longleftrightarrow> videoRAMAddr \<le> a \<and> a < bankedRAMAddr"
definition inBankedRAMArea :: "addr \<Rightarrow> bool" where
  "inBankedRAMArea a \<longleftrightarrow> bankedRAMAddr \<le> a \<and> a < ramAddr"
definition inRAMArea :: "addr \<Rightarrow> bool" where
  "inRAMArea a \<longleftrightarrow> ramAddr \<le> a \<and> a < ramMirrorAddr"
definition inRAMMirrorArea :: "addr \<Rightarrow> bool" where
  "inRAMMirrorArea a \<longleftrightarrow> ramMirrorAddr \<le> a \<and> a < oamRAMAddr"
definition inOAMArea :: "addr \<Rightarrow> bool" where
  "inOAMArea a \<longleftrightarrow> oamRAMAddr \<le> a \<and> a < invalidArea2Addr"
definition inInvalidArea :: "addr \<Rightarrow> bool" where
  "inInvalidArea a \<longleftrightarrow> invalidArea2Addr \<le> a \<and> a < ioAddr"
definition inIOArea :: "addr \<Rightarrow> bool" where
  "inIOArea a \<longleftrightarrow> ioAddr \<le> a \<and> a < hramAddr"
definition inHRAMArea :: "addr \<Rightarrow> bool" where
  "inHRAMArea a \<longleftrightarrow> hramAddr \<le> a \<and> a \<le> lastAddr"

section \<open>The memory management unit (mmu.go)\<close>

text \<open>
  The \<^verbatim>\<open>mbc\<close> interface: the cartridge's bank controller is an object with a state of
  its own and the two methods \<^verbatim>\<open>at\<close> and \<^verbatim>\<open>set\<close>. Its implementations are not in the
  sources at hand, so the state type and both methods are parameters.
\<close>

record 's mbc =
  mbc_state :: 's
  mbc_at :: "'s \<Rightarrow> addr \<Rightarrow> byte"
  mbc_set :: "'s \<Rightarrow> addr \<Rightarrow> byte \<Rightarrow> 's"

definition mbcAt :: "'s mbc \<Rightarrow> addr \<Rightarrow> byte" where
  "mbcAt c a = mbc_at c (mbc_state c) a"

definition mbcSet :: "'s mbc \<Rightarrow> addr \<Rightarrow> byte \<Rightarrow> 's mbc" where
  "mbcSet c a v = c\<lparr>mbc_state := mbc_set c (mbc_state c) a v\<rparr>"

text \<open>
  \<^verbatim>\<open>onWriteFunc\<close>: the write observers are closures over the MMU and the timers. The
  three that the source registers are named here and dispatched in \<open>onWrite\<close> below.
\<close>

datatype onWriteFunc = OnDMAWrite | OnDividerWrite | OnTACWrite

record 's mmu =
  bank0ROM :: "byte list"
  videoRAM :: "byte list"
  oamRAM :: "byte list"
  ioRAM :: "byte list"
  hram :: "byte list"
  dmaActive :: bool
  dmaCursor :: addr
  dmaCycleCount :: int
  subscribers :: "addr \<rightharpoonup> onWriteFunc"
  mbc :: "'s mbc"

definition dmaCycleLength :: int where "dmaCycleLength = 671"

text \<open>
  \<^verbatim>\<open>mmu.at\<close>. The debugger hook (\<^verbatim>\<open>m.db\<close>) and the warning printed for the invalid area
  do not change the emulated state and are left out.
\<close>

definition at :: "'s mmu \<Rightarrow> addr \<Rightarrow> error + byte" where
  "at m a =
    (if inBank0ROMArea a then idx (bank0ROM m) (unat (a - bank0ROMAddr))
     else if inBankedROMArea a then Inr (mbcAt (mbc m) a)
     else if inVideoRAMArea a then idx (videoRAM m) (unat (a - videoRAMAddr))
     else if inRAMArea a \<or> inBankedRAMArea a then Inr (mbcAt (mbc m) a)
     else if inRAMMirrorArea a then Inr (mbcAt (mbc m) (a - (ramMirrorAddr - ramAddr)))
     else if inOAMArea a then idx (oamRAM m) (unat (a - oamRAMAddr))
     else if inInvalidArea a then Inr 0xFF
     else if inIOArea a then idx (ioRAM m) (unat (a - ioAddr))
     else if inHRAMArea a then idx (hram m) (unat (a - hramAddr))
     else Inl (UnexpectedAddress a))"

text \<open>\<^verbatim>\<open>mmu.setNoNotify\<close>: the store that bypasses the subscribers.\<close>

definition setNoNotify :: "'s mmu \<Rightarrow> addr \<Rightarrow> byte \<Rightarrow> error + 's mmu" where
  "setNoNotify m a v =
    (if inBank0ROMArea a \<or> inBankedROMArea a then Inr (m\<lparr>mbc := mbcSet (mbc m) a v\<rparr>)
     else if inVideoRAMArea a then
       bindE (upd (videoRAM m) (unat (a - videoRAMAddr)) v) (\<lambda>xs. Inr (m\<lparr>videoRAM := xs\<rparr>))
     else if inRAMArea a \<or> inBankedRAMArea a then Inr (m\<lparr>mbc := mbcSet (mbc m) a v\<rparr>)
     else if inRAMMirrorArea a then
       Inr (m\<lparr>mbc := mbcSet (mbc m) (a - (ramMirrorAddr - ramAddr)) v\<rparr>)
     else if inOAMArea a then
       bindE (upd (oamRAM m) (unat (a - oamRAMAddr)) v) (\<lambda>xs. Inr (m\<lparr>oamRAM := xs\<rparr>))
     else if inInvalidArea a then Inr m
     else if inIOArea a then
       bindE (upd (ioRAM m) (unat (a - ioAddr)) v) (\<lambda>xs. Inr (m\<lparr>ioRAM := xs\<rparr>))
     else if inHRAMArea a then
       bindE (upd (hram m) (unat (a - hramAddr)) v) (\<lambda>xs. Inr (m\<lparr>hram := xs\<rparr>))
     else Inl (UnexpectedAddress a))"

text \<open>
  Modelled from the spec: \<^verbatim>\<open>split16\<close> is called by \<^verbatim>\<open>mmu.tick\<close> but not declared in the
  sources at hand. It splits a 16-bit value into its lower and upper byte; the spec
  names the first component \<open>cursor & 0xFF\<close>.
\<close>

definition split16 :: "addr \<Rightarrow> byte \<times> byte" where
  "split16 w = (ucast (w AND 0xFF), ucast (drop_bit 8 w))"

text \<open>One iteration of the loop of \<^verbatim>\<open>mmu.tick\<close>.\<close>

definition dmaStep :: "'s mmu \<Rightarrow> error + 's mmu" where
  "dmaStep m =
    (if dmaActive m then
       bindE
         (let lower = fst (split16 (dmaCursor m)) in
          if lower < 0x9F then
            bindE (at m (dmaCursor m)) (\<lambda>v.
            bindE (setNoNotify m (oamRAMAddr + ucast lower) v) (\<lambda>m'.
            Inr (m'\<lparr>dmaCursor := dmaCursor m' + 1\<rparr>)))
          else Inr m)
         (\<lambda>m1.
            if dmaCycleCount m1 \<ge> dmaCycleLength then Inr (m1\<lparr>dmaActive := False\<rparr>)
            else Inr (m1\<lparr>dmaCycleCount := dmaCycleCount m1 + 1\<rparr>))
     else Inr m)"

fun tickLoop :: "nat \<Rightarrow> 's mmu \<Rightarrow> error + 's mmu" where
  "tickLoop 0 m = Inr m"
| "tickLoop (Suc n) m = bindE (dmaStep m) (tickLoop n)"

text \<open>\<^verbatim>\<open>mmu.tick\<close>: the loop runs \<open>opTime\<close> times, not at all when \<open>opTime \<le> 0\<close>.\<close>

definition mmu_tick :: "int \<Rightarrow> 's mmu \<Rightarrow> error + 's mmu" where
  "mmu_tick opTime m = tickLoop (nat opTime) m"

text \<open>\<^verbatim>\<open>mmu.onDMAWrite\<close>: the observer of the DMA register.\<close>

definition onDMAWrite :: "'s mmu \<Rightarrow> addr \<Rightarrow> byte \<Rightarrow> error + (byte \<times> 's mmu)" where
  "onDMAWrite m a v =
    (if dmaActive m then Inl (DMAAlreadyActive v)
     else Inr (v, m\<lparr>dmaActive := True, dmaCursor := push_bit 8 (ucast v), dmaCycleCount := 0\<rparr>))"

text \<open>\<^verbatim>\<open>mmu.subscribeTo\<close>: a second subscriber for an address is a panic.\<close>

definition subscribeTo :: "'s mmu \<Rightarrow> addr \<Rightarrow> onWriteFunc \<Rightarrow> error + 's mmu" where
  "subscribeTo m a f =
    (case subscribers m a of
       Some _ \<Rightarrow> Inl (DuplicateSubscriber a)
     | None \<Rightarrow> Inr (m\<lparr>subscribers := (subscribers m)(a \<mapsto> f)\<rparr>))"

text \<open>
  \<^verbatim>\<open>newMMU\<close>: the buffers are zero-filled slices of the sizes of their regions, bank 0
  is a copy of the first \<open>0x4000\<close> cartridge bytes (a shorter cartridge panics on the
  first missing index), and the DMA observer is subscribed.
\<close>

definition newMMU :: "byte list \<Rightarrow> 's mbc \<Rightarrow> error + 's mmu" where
  "newMMU cartridgeData c =
    (if length cartridgeData < unat bankedROMAddr then Inl IndexOutOfRange
     else subscribeTo
       \<lparr>bank0ROM = take (unat (bankedROMAddr - bank0ROMAddr)) cartridgeData,
        videoRAM = replicate (unat (bankedRAMAddr - videoRAMAddr)) 0,
        oamRAM = replicate (unat (invalidArea2Addr - oamRAMAddr)) 0,
        ioRAM = replicate (unat (hramAddr - ioAddr)) 0,
        hram = replicate (unat (lastAddr - hramAddr + 1)) 0,
        dmaActive = False, dmaCursor = 0, dmaCycleCount = 0,
        subscribers = Map.empty, mbc = c\<rparr>
       dmaAddr OnDMAWrite)"

section \<open>State of the timers, of the video controller and of the whole machine\<close>

text \<open>
  \<^verbatim>\<open>timers\<close> (the edge-detecting version): \<open>cpuClock\<close> is a \<^verbatim>\<open>uint16\<close> and wraps.
\<close>

record timers =
  cpuClock :: "16 word"
  tima :: byte
  timaDelay :: byte

datatype color = Color byte byte byte byte

text \<open>\<^verbatim>\<open>type spriteSize string\<close>; the zero value is the empty string.\<close>

type_synonym spriteSize = string

definition spriteSize8x8 :: spriteSize where "spriteSize8x8 = ''8x8''"
definition spriteSize8x16 :: spriteSize where "spriteSize8x16 = ''8x16''"

record lcdcConfig =
  lcdOn :: bool
  windowTileMapAddr :: addr
  windowOn :: bool
  windowBGTileDataTableAddr :: addr
  bgTileMapAddr :: addr
  spriteSize :: spriteSize
  spritesOn :: bool
  windowBGOn :: bool

text \<open>
  The frame sink: the SDL renderer is modelled by the sequence of calls made on it,
  the latest call last.
\<close>

datatype renderCall =
    RClear
  | RSetDrawColor byte byte byte byte
  | RDrawPoint int int
  | RPresent

text \<open>
  \<^verbatim>\<open>videoController\<close>. \<open>scrollX\<close> and \<open>scrollY\<close> are \<^verbatim>\<open>int8\<close>: eight bits whose value
  is read in two's complement (\<open>sint\<close>). The SDL window, the unused
  \<^verbatim>\<open>drawnScanLines\<close> and the wall-clock frame counter (\<^verbatim>\<open>lastSecond\<close>, \<^verbatim>\<open>frameCnt\<close>,
  which only print a frame rate) are left out.
\<close>

record videoController =
  frameTick :: int
  lcdc :: lcdcConfig
  tiles :: "byte \<rightharpoonup> byte list"
  scrollX :: "8 word"
  scrollY :: "8 word"
  bgPalette :: "byte \<rightharpoonup> color"
  renderer :: "renderCall list"

text \<open>
  The shared environment (\<^verbatim>\<open>environment\<close> / \<^verbatim>\<open>State\<close>): the MMU and the master interrupt
  flag, to which the timers and the video controller hold a reference. The model puts
  the three in one record that every operation passes on.
\<close>

record 's machine =
  mmu :: "'s mmu"
  interruptsEnabled :: bool
  timers :: timers
  video :: videoController

section \<open>Write observers and \<^verbatim>\<open>mmu.set\<close>\<close>

text \<open>\<^verbatim>\<open>timers.onDividerWrite\<close> and \<^verbatim>\<open>timers.onTACWrite\<close>.\<close>

definition onDividerWrite :: "timers \<Rightarrow> addr \<Rightarrow> byte \<Rightarrow> byte \<times> timers" where
  "onDividerWrite t a writeVal = (0, t\<lparr>cpuClock := 0\<rparr>)"

definition onTACWrite :: "timers \<Rightarrow> addr \<Rightarrow> byte \<Rightarrow> byte \<times> timers" where
  "onTACWrite t a writeVal = (let writeVal' = writeVal AND 0x07 in (0xF8 OR writeVal', t))"

text \<open>Calling an observer: each one runs on the part of the machine it closes over.\<close>

definition onWrite :: "onWriteFunc \<Rightarrow> 's machine \<Rightarrow> addr \<Rightarrow> byte \<Rightarrow> error + (byte \<times> 's machine)" where
  "onWrite f st a v =
    (case f of
       OnDMAWrite \<Rightarrow> bindE (onDMAWrite (mmu st) a v) (\<lambda>(v', m'). Inr (v', st\<lparr>mmu := m'\<rparr>))
     | OnDividerWrite \<Rightarrow> (let (v', t') = onDividerWrite (timers st) a v in Inr (v', st\<lparr>timers := t'\<rparr>))
     | OnTACWrite \<Rightarrow> (let (v', t') = onTACWrite (timers st) a v in Inr (v', st\<lparr>timers := t'\<rparr>)))"

text \<open>\<^verbatim>\<open>mmu.set\<close>: the subscriber, if there is one, runs first and its result is stored.\<close>

definition mmu_set :: "'s machine \<Rightarrow> addr \<Rightarrow> byte \<Rightarrow> error + 's machine" where
  "mmu_set st a v =
    (case subscribers (mmu st) a of
       Some f \<Rightarrow>
         bindE (onWrite f st a v) (\<lambda>(v', st').
         bindE (setNoNotify (mmu st') a v') (\<lambda>m'. Inr (st'\<lparr>mmu := m'\<rparr>)))
     | None \<Rightarrow> bindE (setNoNotify (mmu st) a v) (\<lambda>m'. Inr (st\<lparr>mmu := m'\<rparr>)))"

text \<open>The silent store and the DMA tick, lifted to the machine.\<close>

definition storeSilent :: "'s machine \<Rightarrow> addr \<Rightarrow> byte \<Rightarrow> error + 's machine" where
  "storeSilent st a v = bindE (setNoNotify (mmu st) a v) (\<lambda>m'. Inr (st\<lparr>mmu := m'\<rparr>))"

definition machine_mmu_tick :: "int \<Rightarrow> 's machine \<Rightarrow> error + 's machine" where
  "machine_mmu_tick opTime st = bindE (mmu_tick opTime (mmu st)) (\<lambda>m'. Inr (st\<lparr>mmu := m'\<rparr>))"

section \<open>The timers (edge-detecting \<^verbatim>\<open>timers.tick\<close>)\<close>

text \<open>
  The sources hold two versions of the timers. The one modelled here is the later
  one, which keeps a 16-bit clock and the previous value of the signal (\<open>timaDelay\<close>)
  and registers the observers of DIV and TAC; the earlier one counts M-cycles modulo
  the rate and has neither.
\<close>

definition parseTAC :: "byte \<Rightarrow> int \<times> bool" where
  "parseTAC tac =
    (let speedBits = tac AND 0x3;
         rate = (if speedBits = 0x0 then 4096
                 else if speedBits = 0x1 then 262144
                 else if speedBits = 0x2 then 65536
                 else if speedBits = 0x3 then 16384
                 else 0);
         runningBit = tac AND 0x4
     in (rate, runningBit = 0x4))"

text \<open>The \<^verbatim>\<open>switch timaRate\<close> that selects the bit of \<open>cpuClock\<close>.\<close>

definition timaBitOf :: "int \<Rightarrow> 16 word \<Rightarrow> byte" where
  "timaBitOf timaRate clk =
    (if timaRate = 4096 then ucast (drop_bit 9 clk AND 0x1)
     else if timaRate = 16384 then ucast (drop_bit 7 clk AND 0x1)
     else if timaRate = 65536 then ucast (drop_bit 5 clk AND 0x1)
     else if timaRate = 262144 then ucast (drop_bit 3 clk AND 0x1)
     else 0)"

text \<open>One iteration of the loop of \<^verbatim>\<open>timers.tick\<close>, that is one T-cycle.\<close>

definition timerCycle :: "int \<Rightarrow> bool \<Rightarrow> 's machine \<Rightarrow> error + 's machine" where
  "timerCycle timaRate timaRunning st =
    (let t1 = (timers st)\<lparr>cpuClock := cpuClock (timers st) + 1\<rparr>;
         timaBit = timaBitOf timaRate (cpuClock t1);
         timaBitAndEnabled = (if timaBit = 1 \<and> timaRunning then 1 else 0);
         timaShouldIncrement = (timaBitAndEnabled \<noteq> 1 \<and> timaDelay t1 = 1)
     in bindE
          (if timaShouldIncrement then
             (let t2 = t1\<lparr>tima := tima t1 + 1\<rparr> in
              if tima t2 = 0 then
                bindE (at (mmu st) tmaAddr) (\<lambda>tma.
                bindE (at (mmu st) ieAddr) (\<lambda>ie.
                  let st3 = st\<lparr>timers := t2\<lparr>tima := tma\<rparr>\<rparr>;
                      timaInterruptEnabled = (ie AND 0x04 = 0x04)
                  in if interruptsEnabled st3 \<and> timaInterruptEnabled then
                       bindE (at (mmu st3) ifAddr) (\<lambda>flags.
                         storeSilent st3 ifAddr (flags OR 0x04))
                     else Inr st3))
              else Inr (st\<lparr>timers := t2\<rparr>))
           else Inr (st\<lparr>timers := t1\<rparr>))
          (\<lambda>st'. Inr (st'\<lparr>timers := (timers st')\<lparr>timaDelay := timaBitAndEnabled\<rparr>\<rparr>)))"

fun timerLoop :: "nat \<Rightarrow> int \<Rightarrow> bool \<Rightarrow> 's machine \<Rightarrow> error + 's machine" where
  "timerLoop 0 timaRate timaRunning st = Inr st"
| "timerLoop (Suc n) timaRate timaRunning st =
     bindE (timerCycle timaRate timaRunning st) (timerLoop n timaRate timaRunning)"

definition timers_tick :: "int \<Rightarrow> 's machine \<Rightarrow> error + 's machine" where
  "timers_tick amount st =
    bindE (at (mmu st) tacAddr) (\<lambda>tac.
      let (timaRate, timaRunning) = parseTAC tac in
      bindE (timerLoop (nat amount) timaRate timaRunning st) (\<lambda>st1.
      bindE (storeSilent st1 dividerAddr (ucast (drop_bit 8 (cpuClock (timers st1))))) (\<lambda>st2.
      storeSilent st2 timaAddr (tima (timers st2)))))"

text \<open>
  \<^verbatim>\<open>newTimers\<close>: subscribes the two observers and fakes the two NOPs that precede the
  boot ROM with \<open>tick(8)\<close>.
\<close>

definition newTimers :: "'s machine \<Rightarrow> error + 's machine" where
  "newTimers st =
    (let st0 = st\<lparr>timers := \<lparr>cpuClock = 0, tima = 0, timaDelay = 0\<rparr>\<rparr> in
     bindE (subscribeTo (mmu st0) dividerAddr OnDividerWrite) (\<lambda>m1.
     bindE (subscribeTo m1 tacAddr OnTACWrite) (\<lambda>m2.
     timers_tick 8 (st0\<lparr>mmu := m2\<rparr>))))"

section \<open>The video controller\<close>

definition screenWidth :: int where "screenWidth = 160"
definition screenHeight :: int where "screenHeight = 144"
definition scanLineOAMClocks :: int where "scanLineOAMClocks = 80"
definition scanLineVRAMClocks :: int where "scanLineVRAMClocks = 172"
definition horizontalBlankClocks :: int where "horizontalBlankClocks = 204"
definition scanLineFullClocks :: int where
  "scanLineFullClocks = scanLineOAMClocks + scanLineVRAMClocks + horizontalBlankClocks"
definition verticalBlankClocks :: int where "verticalBlankClocks = 4560"
definition fullFrameClocks :: int where
  "fullFrameClocks = (scanLineFullClocks * screenHeight) + verticalBlankClocks"

definition tileBytes :: int where "tileBytes = 16"
definition bgTileWidth :: int where "bgTileWidth = 8"
definition bgTileHeight :: int where "bgTileHeight = 8"
definition bgWidthInTiles :: int where "bgWidthInTiles = 32"
definition bgHeightInTiles :: int where "bgHeightInTiles = 32"
definition bgWidth :: int where "bgWidth = bgWidthInTiles * bgTileWidth"
definition bgHeight :: int where "bgHeight = 32 * bgTileHeight"

text \<open>
  The \<^verbatim>\<open>vcMode\<close> constants. The source declares them as
  \<^verbatim>\<open>const ( vcMode0 vcMode = 0; vcMode1; vcMode2; vcMode3 )\<close>
  without \<^verbatim>\<open>iota\<close>: in Go a constant with no expression of its own repeats the
  expression of the line before, so all four have the value 0.
\<close>

definition vcMode0 :: byte where "vcMode0 = 0"
definition vcMode1 :: byte where "vcMode1 = 0"
definition vcMode2 :: byte where "vcMode2 = 0"
definition vcMode3 :: byte where "vcMode3 = 0"

text \<open>
  Modelled from the spec: the tile-map and tile-data bases are used by \<^verbatim>\<open>loadLCDC\<close> and
  \<^verbatim>\<open>loadTile\<close> but not declared in the sources at hand. The spec gives the tile-map
  bases \<open>0x9800\<close> / \<open>0x9C00\<close> (LCDC bit 3) and the tile-data bases \<open>0x9000\<close> (signed
  index, LCDC bit 4 clear) / \<open>0x8000\<close> (unsigned index, bit 4 set).
\<close>

definition tileMap0 :: addr where "tileMap0 = 0x9800"
definition tileMap1 :: addr where "tileMap1 = 0x9C00"
definition tileDataTable0 :: addr where "tileDataTable0 = 0x9000"
definition tileDataTable1 :: addr where "tileDataTable1 = 0x8000"

text \<open>
  Modelled from the spec: \<^verbatim>\<open>asSigned\<close> is not declared in the sources at hand; it
  reinterprets a \<^verbatim>\<open>uint8\<close> as an \<^verbatim>\<open>int8\<close> (the spec writes \<open>signed(tileId)\<close>). The
  bits stay; the signed value is \<open>sint\<close>.
\<close>

definition asSigned :: "byte \<Rightarrow> 8 word" where
  "asSigned v = v"

text \<open>An index of type \<^verbatim>\<open>int\<close>: a negative one panics as well.\<close>

definition idxInt :: "'a list \<Rightarrow> int \<Rightarrow> error + 'a" where
  "idxInt xs i = (if 0 \<le> i \<and> i < int (length xs) then Inr (xs ! nat i) else Inl IndexOutOfRange)"

text \<open>\<^verbatim>\<open>videoController.loadLCDC\<close>.\<close>

definition loadLCDC :: "'s machine \<Rightarrow> error + lcdcConfig" where
  "loadLCDC st =
    bindE (at (mmu st) lcdcAddr) (\<lambda>b.
      Inr \<lparr>lcdOn = (b AND 0x80 = 0x80),
           windowTileMapAddr = (if b AND 0x40 = 0x40 then tileMap1 else tileMap0),
           windowOn = (b AND 0x20 = 0x20),
           windowBGTileDataTableAddr =
             (if b AND 0x10 = 0x10 then tileDataTable1 else tileDataTable0),
           bgTileMapAddr = (if b AND 0x08 = 0x08 then tileMap1 else tileMap0),
           spriteSize = (if b AND 0x04 = 0x04 then spriteSize8x16 else spriteSize8x8),
           spritesOn = (b AND 0x02 = 0x02),
           windowBGOn = (b AND 0x01 = 0x01)\<rparr>)"

text \<open>
  \<^verbatim>\<open>videoController.setMode\<close>. Modelled from the spec: \<^verbatim>\<open>mmu.pointerTo\<close> is not in the
  sources at hand; STAT is an ordinary byte of the I/O buffer, so the two updates
  through the pointer are a read and a silent store of that byte.
\<close>

definition setMode :: "'s machine \<Rightarrow> byte \<Rightarrow> error + 's machine" where
  "setMode st mode =
    bindE (at (mmu st) statAddr) (\<lambda>statReg.
      storeSilent st statAddr ((statReg AND 0xFC) OR mode))"

text \<open>\<^verbatim>\<open>videoController.loadBGPalette\<close>: four iterations, each shifting \<open>bgp\<close> left by two.\<close>

definition colorOf :: "byte \<Rightarrow> color" where
  "colorOf colorType =
    (if colorType = 0x00 then Color 0 0 0 255
     else if colorType = 0x01 then Color 98 78 80 255
     else if colorType = 0x02 then Color 219 179 180 255
     else if colorType = 0x03 then Color 255 255 255 255
     else Color 0 0 0 0)"

primrec paletteLoop :: "byte list \<Rightarrow> byte \<Rightarrow> (byte \<rightharpoonup> color) \<Rightarrow> (byte \<rightharpoonup> color)" where
  "paletteLoop [] bgp palette = palette"
| "paletteLoop (dotData # ds) bgp palette =
     (let colorType = drop_bit 6 (bgp AND 0xC0)
      in paletteLoop ds (push_bit 2 bgp) (palette(dotData \<mapsto> colorOf colorType)))"

definition loadBGPalette :: "'s machine \<Rightarrow> error + (byte \<rightharpoonup> color)" where
  "loadBGPalette st =
    bindE (at (mmu st) bgpAddr) (\<lambda>bgp. Inr (paletteLoop [0, 1, 2, 3] bgp Map.empty))"

text \<open>
  \<^verbatim>\<open>videoController.loadTile\<close>: the inner loop over the eight dots of a row, the outer
  loop over the eight rows, and the choice of the tile's address.
\<close>

primrec tileRowLoop :: "nat list \<Rightarrow> nat \<Rightarrow> byte \<Rightarrow> byte \<Rightarrow> byte list \<Rightarrow> error + byte list" where
  "tileRowLoop [] y lower upper tileData = Inr tileData"
| "tileRowLoop (x # xs) y lower upper tileData =
     (let lowerBit = drop_bit 7 (lower AND 0x80);
          upperBit = drop_bit 7 (upper AND 0x80);
          paletteID = (push_bit 1 upperBit) OR lowerBit
      in bindE (upd tileData ((y * 8) + x) paletteID) (\<lambda>tileData'.
           tileRowLoop xs y (push_bit 1 lower) (push_bit 1 upper) tileData'))"

primrec tileRowsLoop :: "nat list \<Rightarrow> 's mmu \<Rightarrow> addr \<Rightarrow> byte list \<Rightarrow> error + byte list" where
  "tileRowsLoop [] m tileDataAddr tileData = Inr tileData"
| "tileRowsLoop (y # ys) m tileDataAddr tileData =
     bindE (at m (tileDataAddr + of_nat (y * 2))) (\<lambda>lower.
     bindE (at m (tileDataAddr + of_nat ((y * 2) + 1))) (\<lambda>upper.
     bindE (tileRowLoop [0..<8] y lower upper tileData) (\<lambda>tileData'.
       tileRowsLoop ys m tileDataAddr tileData')))"

definition loadTile :: "'s machine \<Rightarrow> byte \<Rightarrow> error + byte list" where
  "loadTile st tile =
    bindE
      (if windowBGTileDataTableAddr (lcdc (video st)) = tileDataTable0 then
         Inr (word_of_int (uint tileDataTable0 + sint (asSigned tile) * tileBytes))
       else if windowBGTileDataTableAddr (lcdc (video st)) = tileDataTable1 then
         Inr (tileDataTable1 + (ucast tile * 16))
       else Inl (UnknownTileDataTable 0))
      (\<lambda>tileDataAddr. tileRowsLoop [0..<8] (mmu st) tileDataAddr (replicate 64 0))"

text \<open>\<^verbatim>\<open>videoController.loadBGTiles\<close>: the tiles 0 to 255, in this order.\<close>

primrec loadTilesLoop :: "nat list \<Rightarrow> 's machine \<Rightarrow> (byte \<rightharpoonup> byte list) \<Rightarrow> error + (byte \<rightharpoonup> byte list)" where
  "loadTilesLoop [] st tileMap = Inr tileMap"
| "loadTilesLoop (i # is) st tileMap =
     bindE (loadTile st (of_nat i)) (\<lambda>d. loadTilesLoop is st (tileMap(of_nat i \<mapsto> d)))"

definition loadBGTiles :: "'s machine \<Rightarrow> error + (byte \<rightharpoonup> byte list)" where
  "loadBGTiles st = loadTilesLoop [0..<256] st Map.empty"

text \<open>
  \<^verbatim>\<open>videoController.bgTileAt\<close>. The wrapping of a background coordinate is written twice
  in the source, once for \<open>x\<close> and once for \<open>y\<close>, with the same text; \<open>bgWrap\<close> is that
  text. \<open>bgTileOffset\<close> is the source's \<open>tileOffset\<close>. Go's \<open>/\<close> and \<open>%\<close> on \<^verbatim>\<open>int\<close>
  truncate towards zero (\<open>sdiv\<close>, \<open>smod\<close>).
\<close>

definition bgWrap :: "int \<Rightarrow> 8 word \<Rightarrow> int \<Rightarrow> int" where
  "bgWrap x scroll extent =
    (let bg = x + sint scroll in
     if bg < 0 then bg + extent
     else if bg > extent then bg - extent
     else bg)"

definition bgTileOffset :: "videoController \<Rightarrow> int \<Rightarrow> int \<Rightarrow> int" where
  "bgTileOffset v x y =
    (let bgX = bgWrap x (scrollX v) bgWidth;
         bgY = bgWrap y (scrollY v) bgHeight
     in ((bgY sdiv bgTileHeight) * bgWidthInTiles + (bgX sdiv bgTileWidth)))"

definition bgTileAt :: "'s machine \<Rightarrow> int \<Rightarrow> int \<Rightarrow> error + (byte \<times> int \<times> int)" where
  "bgTileAt st x y =
    (let bgX = bgWrap x (scrollX (video st)) bgWidth;
         bgY = bgWrap y (scrollY (video st)) bgHeight;
         tileOffset = bgTileOffset (video st) x y;
         tileAddr = bgTileMapAddr (lcdc (video st)) + word_of_int tileOffset
     in bindE (at (mmu st) tileAddr) (\<lambda>tileID.
          Inr (tileID, bgX smod bgTileWidth, bgY smod bgTileHeight)))"

text \<open>\<^verbatim>\<open>videoController.drawScanLine\<close>: the loop over \<open>x\<close>, from 0 to 159.\<close>

definition drawDot :: "'s machine \<Rightarrow> int \<Rightarrow> int \<Rightarrow> error + 's machine" where
  "drawDot st line x =
    bindE (bgTileAt st x line) (\<lambda>(tileID, tileX, tileY).
      case tiles (video st) tileID of
        None \<Rightarrow> Inl (InvalidTileID tileID)
      | Some tileData \<Rightarrow>
          bindE (idxInt tileData ((tileY * bgTileHeight) + tileX)) (\<lambda>dotCode.
            let c = (case bgPalette (video st) dotCode of
                       None \<Rightarrow> Color 0 0 0 0 | Some c \<Rightarrow> c)
            in case c of Color cr cg cb ca \<Rightarrow>
              Inr (st\<lparr>video := (video st)\<lparr>renderer :=
                     renderer (video st) @ [RSetDrawColor cr cg cb ca, RDrawPoint x line]\<rparr>\<rparr>)))"

primrec drawLoop :: "nat list \<Rightarrow> int \<Rightarrow> 's machine \<Rightarrow> error + 's machine" where
  "drawLoop [] line st = Inr st"
| "drawLoop (x # xs) line st = bindE (drawDot st line (int x)) (drawLoop xs line)"

definition drawScanLine :: "'s machine \<Rightarrow> int \<Rightarrow> error + 's machine" where
  "drawScanLine st line = drawLoop [0..<nat screenWidth] line st"

text \<open>One iteration of the loop of \<^verbatim>\<open>videoController.tick\<close>.\<close>

definition vcStep :: "'s machine \<Rightarrow> error + 's machine" where
  "vcStep st =
    bindE
      (if frameTick (video st) = 0 then
         bindE (loadLCDC st) (\<lambda>c.
         bindE (at (mmu st) scrollYAddr) (\<lambda>sy.
           Inr (st\<lparr>video := (video st)\<lparr>renderer := renderer (video st) @ [RClear],
                                        lcdc := c, scrollY := asSigned sy\<rparr>\<rparr>)))
       else Inr st)
      (\<lambda>st1.
    let currScanLine = frameTick (video st1) sdiv scanLineFullClocks in
    bindE (mmu_set st1 lyAddr (word_of_int currScanLine)) (\<lambda>st2.
    bindE
      (if frameTick (video st2) < scanLineFullClocks * screenHeight then
         (let scanLineProgress = frameTick (video st2) smod scanLineFullClocks in
          if scanLineProgress = 0 then
            bindE (setMode st2 vcMode2) (\<lambda>st3.
            bindE (at (mmu st3) scrollXAddr) (\<lambda>sx.
            let st4 = st3\<lparr>video := (video st3)\<lparr>scrollX := asSigned sx\<rparr>\<rparr> in
            bindE (loadBGPalette st4) (\<lambda>p.
              Inr (st4\<lparr>video := (video st4)\<lparr>bgPalette := p\<rparr>\<rparr>))))
          else if scanLineProgress = scanLineOAMClocks then
            bindE (setMode st2 vcMode3) (\<lambda>st3.
            bindE (loadBGTiles st3) (\<lambda>tileMap.
              Inr (st3\<lparr>video := (video st3)\<lparr>tiles := tileMap\<rparr>\<rparr>)))
          else if scanLineProgress = scanLineVRAMClocks then
            bindE (setMode st2 vcMode0) (\<lambda>st3. drawScanLine st3 currScanLine)
          else Inr st2)
       else
         bindE (setMode st2 vcMode1) (\<lambda>st3.
           if frameTick (video st3) = scanLineFullClocks * screenHeight then
             bindE (at (mmu st3) ieAddr) (\<lambda>ie.
             bindE
               (if interruptsEnabled st3 \<and> ie AND 0x01 = 0x01 then
                  bindE (at (mmu st3) ifAddr) (\<lambda>flags. mmu_set st3 ifAddr (flags OR 0x01))
                else Inr st3)
               (\<lambda>st4.
                 Inr (st4\<lparr>video := (video st4)\<lparr>renderer :=
                        renderer (video st4) @ [RPresent]\<rparr>\<rparr>)))
           else Inr st3))
      (\<lambda>st5.
        let ft = frameTick (video st5) + 1 in
        Inr (st5\<lparr>video := (video st5)\<lparr>frameTick :=
               (if ft = fullFrameClocks then 0 else ft)\<rparr>\<rparr>))))"

fun vcLoop :: "nat \<Rightarrow> 's machine \<Rightarrow> error + 's machine" where
  "vcLoop 0 st = Inr st"
| "vcLoop (Suc n) st = bindE (vcStep st) (vcLoop n)"

text \<open>\<^verbatim>\<open>videoController.tick\<close>: nothing happens while the LCD is off.\<close>

definition vc_tick :: "int \<Rightarrow> 's machine \<Rightarrow> error + 's machine" where
  "vc_tick opTime st =
    bindE (loadLCDC st) (\<lambda>c.
      if \<not> lcdOn c then Inr st else vcLoop (nat opTime) st)"

text \<open>
  \<^verbatim>\<open>newVideoController\<close>: every field has Go's zero value; the renderer's draw colour
  is set to white.
\<close>

definition newVideoController :: videoController where
  "newVideoController =
    \<lparr>frameTick = 0,
     lcdc = \<lparr>lcdOn = False, windowTileMapAddr = 0, windowOn = False,
             windowBGTileDataTableAddr = 0, bgTileMapAddr = 0, spriteSize = [],
             spritesOn = False, windowBGOn = False\<rparr>,
     tiles = Map.empty, scrollX = 0, scrollY = 0, bgPalette = Map.empty,
     renderer = [RSetDrawColor 255 255 255 255]\<rparr>"

section \<open>A machine to run the code on\<close>

text \<open>
  The components are built in their dependency order: the MMU, then the timers, then
  the video controller. The master interrupt flag starts cleared (Go's zero value).
\<close>

definition newMachine :: "byte list \<Rightarrow> 's mbc \<Rightarrow> error + 's machine" where
  "newMachine cartridgeData c =
    bindE (newMMU cartridgeData c) (\<lambda>m.
      newTimers \<lparr>mmu = m, interruptsEnabled = False,
                 timers = \<lparr>cpuClock = 0, tima = 0, timaDelay = 0\<rparr>,
                 video = newVideoController\<rparr>)"

text \<open>
  A bank controller to instantiate the interface with: a cartridge without banking
  whose external and work RAM (\<open>[0xA000,0xE000)\<close>) is a plain byte store; its ROM reads
  as zero and writes outside the RAM are dropped.
\<close>

definition plainMBC :: "(addr \<Rightarrow> byte) mbc" where
  "plainMBC =
    \<lparr>mbc_state = (\<lambda>_. 0),
     mbc_at = (\<lambda>s a. s a),
     mbc_set = (\<lambda>s a v. if 0xA000 \<le> a \<and> a < 0xE000 then s(a := v) else s)\<rparr>"

text \<open>Running a sequence of fallible operations on the machine, in order.\<close>

primrec runAll :: "('a \<Rightarrow> error + 'a) list \<Rightarrow> 'a \<Rightarrow> error + 'a" where
  "runAll [] st = Inr st"
| "runAll (f # fs) st = bindE (f st) (runAll fs)"

definition runFrom :: "error + 'a \<Rightarrow> ('a \<Rightarrow> error + 'a) list \<Rightarrow> error + 'a" where
  "runFrom r fs = bindE r (runAll fs)"

text \<open>
  The accesses of the CPU with the machine as last argument, so that a run is a list
  of operations: \<open>cpuWrite\<close> is \<^verbatim>\<open>mmu.set\<close>, \<open>readByte\<close> is \<^verbatim>\<open>mmu.at\<close>.
\<close>

definition cpuWrite :: "addr \<Rightarrow> byte \<Rightarrow> 's machine \<Rightarrow> error + 's machine" where
  "cpuWrite a v st = mmu_set st a v"

definition readByte :: "addr \<Rightarrow> 's machine \<Rightarrow> error + byte" where
  "readByte a st = at (mmu st) a"

text \<open>The machine after power-on with an all-zero 16 KiB cartridge.\<close>

definition powerOn :: "error + (addr \<Rightarrow> byte) machine" where
  "powerOn = newMachine (replicate 0x4000 0) plainMBC"

section \<open>The spec's words, to compare the code with\<close>

text \<open>
  The spec's description of the timer: the TIMA-source bit of \<open>sysClock\<close> is chosen by
  the rate code of TAC (code 0, 4096 Hz: bit 9; code 1, 262144 Hz: bit 3; code 2,
  65536 Hz: bit 5; code 3, 16384 Hz: bit 7), and the signal is that bit AND the running
  flag, bit 2 of TAC.
\<close>

definition spec_sourceBit :: "byte \<Rightarrow> 16 word \<Rightarrow> bool" where
  "spec_sourceBit tac sysClock =
    (let code = tac AND 0x3 in
     if code = 0 then bit sysClock 9
     else if code = 1 then bit sysClock 3
     else if code = 2 then bit sysClock 5
     else bit sysClock 7)"

definition spec_signal :: "byte \<Rightarrow> 16 word \<Rightarrow> bool" where
  "spec_signal tac sysClock \<longleftrightarrow> spec_sourceBit tac sysClock \<and> bit tac 2"

text \<open>
  The spec's scanline rendering, steps 1 and 2, with \<open>scx\<close> and \<open>scy\<close> the unsigned bytes
  of SCX and SCY: \<open>bgX = (x + scrollX) mod 256\<close>, \<open>bgY = (y + scrollY) mod 256\<close> and
  \<open>tileIndex = (bgY / 8) * 32 + (bgX / 8)\<close>.
\<close>

definition spec_bgCoord :: "int \<Rightarrow> byte \<Rightarrow> int" where
  "spec_bgCoord x scroll = (x + uint scroll) mod 256"

definition spec_tileIndex :: "byte \<Rightarrow> byte \<Rightarrow> int \<Rightarrow> int \<Rightarrow> int" where
  "spec_tileIndex scx scy x y = (spec_bgCoord y scy div 8) * 32 + (spec_bgCoord x scx div 8)"

section \<open>Observations\<close>

text \<open>The addresses that \<open>at\<close> and \<open>setNoNotify\<close> route to a buffer the MMU owns.\<close>

definition ownedArea :: "addr \<Rightarrow> bool" where
  "ownedArea a \<longleftrightarrow> inVideoRAMArea a \<or> inOAMArea a \<or> inIOArea a \<or> inHRAMArea a"

text \<open>The points drawn on the frame sink, in the order of the calls.\<close>

fun drawnPoints :: "renderCall list \<Rightarrow> (int \<times> int) list" where
  "drawnPoints [] = []"
| "drawnPoints (RDrawPoint x y # cs) = (x, y) # drawnPoints cs"
| "drawnPoints (c # cs) = drawnPoints cs"

text \<open>The 160 points of a scanline, from left to right.\<close>

definition scanLinePoints :: "int \<Rightarrow> (int \<times> int) list" where
  "scanLinePoints line = map (\<lambda>x. (int x, line)) [0..<160]"

text \<open>The points drawn so far together with the mode bits of STAT.\<close>

definition sinkAndMode :: "'s machine \<Rightarrow> error + ((int \<times> int) list \<times> byte)" where
  "sinkAndMode st =
    bindE (at (mmu st) statAddr) (\<lambda>stat.
      Inr (drawnPoints (renderer (video st)), stat AND 0x03))"

text \<open>\<open>frameTick\<close> together with what a read of LY returns.\<close>

definition frameTickAndLY :: "'s machine \<Rightarrow> error + (int \<times> byte)" where
  "frameTickAndLY st =
    bindE (at (mmu st) lyAddr) (\<lambda>ly. Inr (frameTick (video st), ly))"

section \<open>Invariants\<close>

text \<open>
  The buffers keep the sizes \<^verbatim>\<open>newMMU\<close> gives them: no operation of the source appends
  to them or replaces them.
\<close>

definition mmu_wf :: "'s mmu \<Rightarrow> bool" where
  "mmu_wf m \<longleftrightarrow>
     length (bank0ROM m) = 0x4000 \<and> length (videoRAM m) = 0x2000 \<and>
     length (oamRAM m) = 0xA0 \<and> length (ioRAM m) = 0x80 \<and> length (hram m) = 0x80"

text \<open>
  The states in which the video controller runs without a panic: the LY and IF writes
  meet no observer (the source subscribes none there), \<open>frameTick\<close> is inside the
  frame, the LCDC snapshot taken at \<open>frameTick = 0\<close> names one of the two tile-data
  tables, and the tile cache filled at position 80 of the first line holds 64 dots for
  each of the 256 tile ids.
\<close>

definition tiles_ok :: "(byte \<rightharpoonup> byte list) \<Rightarrow> bool" where
  "tiles_ok tm \<longleftrightarrow> (\<forall>t. \<exists>d. tm t = Some d \<and> length d = 64)"

definition vc_inv :: "'s machine \<Rightarrow> bool" where
  "vc_inv st \<longleftrightarrow>
     mmu_wf (mmu st) \<and> subscribers (mmu st) lyAddr = None \<and> subscribers (mmu st) ifAddr = None
     \<and> 0 \<le> frameTick (video st) \<and> frameTick (video st) < fullFrameClocks
     \<and> (0 < frameTick (video st) \<longrightarrow>
          windowBGTileDataTableAddr (lcdc (video st)) = tileDataTable0
          \<or> windowBGTileDataTableAddr (lcdc (video st)) = tileDataTable1)
     \<and> (80 < frameTick (video st) \<longrightarrow> tiles_ok (tiles (video st)))"

text \<open>
  What one iteration of the video loop does to the state, as far as the claims need
  it. \<open>vcSpecial\<close> holds at the positions where the loop body does more than write LY:
  the three cases of the \<^verbatim>\<open>switch\<close> (0, \<open>scanLineOAMClocks\<close> = 80 and
  \<open>scanLineVRAMClocks\<close> = 172) on a visible line, and the whole of VBlank.
\<close>

definition vcSpecial :: "int \<Rightarrow> bool" where
  "vcSpecial ft \<longleftrightarrow> \<not> ft < 65664 \<or> ft mod 456 = 0 \<or> ft mod 456 = 80 \<or> ft mod 456 = 172"

definition vc_post :: "'s machine \<Rightarrow> 's machine \<Rightarrow> bool" where
  "vc_post st st' \<longleftrightarrow>
     (let ft = frameTick (video st) in
      vc_inv st'
      \<and> subscribers (mmu st') = subscribers (mmu st)
      \<and> interruptsEnabled st' = interruptsEnabled st
      \<and> frameTick (video st') = (if ft + 1 = fullFrameClocks then 0 else ft + 1)
      \<and> drawnPoints (renderer (video st')) =
          drawnPoints (renderer (video st))
          @ (if ft < 65664 \<and> ft mod 456 = 172
             then map (\<lambda>x. (int x, ft div 456)) [0..<160] else [])
      \<and> ioRAM (mmu st') ! 0x44 = word_of_int (ft div 456)
      \<and> ioRAM (mmu st') ! 0x41 =
          (if vcSpecial ft then ioRAM (mmu st) ! 0x41 AND 0xFC else ioRAM (mmu st) ! 0x41)
      \<and> ioRAM (mmu st') ! 0x40 = ioRAM (mmu st) ! 0x40)"

section \<open>The states the claims are evaluated in\<close>

text \<open>The state that \<open>powerOn\<close> computes (lemma \<open>powerOn_eq\<close>), written out.\<close>

definition bootState :: "(addr \<Rightarrow> byte) machine" where
  "bootState =
    \<lparr>mmu = \<lparr>bank0ROM = replicate 0x4000 0, videoRAM = replicate 0x2000 0,
             oamRAM = replicate 0xA0 0, ioRAM = replicate 0x80 0, hram = replicate 0x80 0,
             dmaActive = False, dmaCursor = 0, dmaCycleCount = 0,
             subscribers = [dmaAddr \<mapsto> OnDMAWrite, dividerAddr \<mapsto> OnDividerWrite,
                            tacAddr \<mapsto> OnTACWrite],
             mbc = plainMBC\<rparr>,
     interruptsEnabled = False,
     timers = \<lparr>cpuClock = 8, tima = 0, timaDelay = 0\<rparr>,
     video = newVideoController\<rparr>"

text \<open>
  After the CPU has written \<open>0xC1\<close> to the DMA register of \<open>bootState\<close> (lemma
  \<open>dmaBusy_reached\<close>).
\<close>

definition dmaBusyState :: "(addr \<Rightarrow> byte) machine" where
  "dmaBusyState = bootState\<lparr>mmu := (mmu bootState)\<lparr>dmaActive := True, dmaCursor := 0xC100,
        dmaCycleCount := 0, ioRAM := (ioRAM (mmu bootState))[0x46 := 0xC1]\<rparr>\<rparr>"

text \<open>
  After the CPU writes of \<open>0x9E\<close> to \<open>0x809E\<close> and of \<open>0x9F\<close> to \<open>0x809F\<close> (video RAM): the
  last two bytes of a DMA source block at \<open>0x8000\<close> (lemma \<open>dmaSource_reached\<close>).
\<close>

definition dmaSourceState :: "(addr \<Rightarrow> byte) machine" where
  "dmaSourceState =
     bootState\<lparr>mmu := (mmu bootState)\<lparr>videoRAM :=
       (videoRAM (mmu bootState))[0x9E := 0x9E, 0x9F := 0x9F]\<rparr>\<rparr>"

text \<open>After a CPU write of \<open>0x80\<close> (LCD on) to LCDC (lemma \<open>lcdOn_reached\<close>).\<close>

definition lcdOnState :: "(addr \<Rightarrow> byte) machine" where
  "lcdOnState =
     bootState\<lparr>mmu := (mmu bootState)\<lparr>ioRAM := (ioRAM (mmu bootState))[0x40 := 0x80]\<rparr>\<rparr>"

text \<open>
  The seed scenario of the timer overflow, one T-cycle before a falling edge of bit 3:
  TAC = \<open>0x05\<close>, TIMA = \<open>0xFF\<close>, TMA = \<open>0x42\<close>, IE bit 2 set, master flag set, IF = 0;
  \<open>cpuClock\<close> is 15 (bit 3 set, and so was the signal), the next value 16 has bit 3
  clear.
\<close>

definition timerEdgeState :: "(addr \<Rightarrow> byte) machine" where
  "timerEdgeState =
    bootState\<lparr>mmu := (mmu bootState)\<lparr>ioRAM := (replicate 0x80 0)[6 := 0x42, 7 := 0x05],
                                        hram := (replicate 0x80 0)[0x7F := 0x04]\<rparr>,
              interruptsEnabled := True,
              timers := \<lparr>cpuClock = 15, tima = 0xFF, timaDelay = 1\<rparr>\<rparr>"

section \<open>Basic facts\<close>

subsection \<open>Unfolding the constants\<close>

lemmas addr_defs =
  bank0ROMAddr_def bankedROMAddr_def videoRAMAddr_def bankedRAMAddr_def ramAddr_def
  ramMirrorAddr_def oamRAMAddr_def invalidArea2Addr_def ioAddr_def hramAddr_def
  lastAddr_def dividerAddr_def timaAddr_def tmaAddr_def tacAddr_def ifAddr_def
  lcdcAddr_def statAddr_def scrollYAddr_def scrollXAddr_def lyAddr_def dmaAddr_def
  bgpAddr_def ieAddr_def

lemmas area_defs =
  inBank0ROMArea_def inBankedROMArea_def inVideoRAMArea_def inBankedRAMArea_def
  inRAMArea_def inRAMMirrorArea_def inOAMArea_def inInvalidArea_def inIOArea_def
  inHRAMArea_def

lemmas video_defs =
  screenWidth_def screenHeight_def scanLineOAMClocks_def scanLineVRAMClocks_def
  horizontalBlankClocks_def scanLineFullClocks_def verticalBlankClocks_def
  fullFrameClocks_def tileBytes_def bgTileWidth_def bgTileHeight_def bgWidthInTiles_def
  bgHeightInTiles_def bgWidth_def bgHeight_def vcMode0_def vcMode1_def vcMode2_def
  vcMode3_def tileMap0_def tileMap1_def tileDataTable0_def tileDataTable1_def

subsection \<open>Results, indexing and runs\<close>

lemma bindE_Inl [simp]: "bindE (Inl e) f = Inl e"
  by (simp add: bindE_def)

lemma bindE_Inr [simp]: "bindE (Inr x) f = f x"
  by (simp add: bindE_def)

lemma bindE_eq_Inr: "bindE r f = Inr y \<longleftrightarrow> (\<exists>x. r = Inr x \<and> f x = Inr y)"
  by (cases r) simp_all

lemma replicate_update_same: "(replicate n x)[i := x] = replicate n x"
  by (induction n arbitrary: i) (auto split: nat.splits)

lemma runAll_append: "runAll (fs @ gs) st = bindE (runAll fs st) (runAll gs)"
proof (induction fs arbitrary: st)
  case Nil
  then show ?case by simp
next
  case (Cons f fs)
  show ?case by (cases "f st") (simp_all add: Cons.IH)
qed

lemma runFrom_snoc: "runFrom r (fs @ [f]) = bindE (runFrom r fs) f"
proof (cases r)
  case (Inl e)
  then show ?thesis by (simp add: runFrom_def)
next
  case (Inr st)
  show ?thesis
  proof (cases "runAll fs st")
    case (Inl e)
    then show ?thesis using Inr by (simp add: runFrom_def runAll_append)
  next
    case (Inr st')
    then show ?thesis using \<open>r = Inr st\<close> by (cases "f st'") (simp_all add: runFrom_def runAll_append)
  qed
qed

subsection \<open>Words and integers\<close>

lemma unat_ucast_byte: "unat (ucast (l::8 word) :: 16 word) = unat l"
proof -
  have "unat l < 2 ^ 16" using unsigned_less[of l, where ?'a=nat] by simp
  then show ?thesis by (simp add: unsigned_ucast_eq take_bit_nat_eq_self_iff)
qed

lemma unat_off_inj: "unat (a - c) = unat (b - c) \<Longrightarrow> a = (b::addr)"
  by (metis add_diff_cancel_left' diff_add_cancel word_unat_eq_iff)

lemma and_exp_cases: "(t::'a::len word) AND 2 ^ n = (if bit t n then 2 ^ n else 0)"
  by (rule bit_eqI) (auto simp: bit_simps)

lemma and4_bit: "(t::byte) AND 0x4 = 0x4 \<longleftrightarrow> bit t 2"
  using and_exp_cases[of t 2] by simp

lemma and3_cases: "(t::byte) AND 3 = 0 \<or> t AND 3 = 1 \<or> t AND 3 = 2 \<or> t AND 3 = 3"
proof -
  have "t AND 3 \<le> 3" by (rule word_and_le1)
  then have "unat (t AND 3) \<le> 3" by (simp add: word_le_nat_alt)
  then have "unat (t AND 3) = 0 \<or> unat (t AND 3) = 1 \<or> unat (t AND 3) = 2 \<or> unat (t AND 3) = 3"
    by linarith
  moreover have "t AND 3 = of_nat (unat (t AND 3))" by simp
  ultimately show ?thesis by (elim disjE) (simp_all only: , simp_all)
qed

lemma bit_as_byte:
  "(ucast (drop_bit n (w::16 word) AND 0x1) :: byte) = (if bit w n then 1 else 0)"
  by (simp add: and_one_eq mod_2_eq_odd bit_iff_odd_drop_bit)

lemma sint_byte_range: "- 128 \<le> sint (s::byte) \<and> sint s < 128"
  using sint_ge[of s] sint_lt[of s] by simp

lemma sdiv_nonneg: "0 \<le> k \<Longrightarrow> 0 < l \<Longrightarrow> k sdiv l = k div (l::int)"
  by (cases "k = 0") (simp_all add: signed_divide_int_def)

lemma smod_nonneg: "0 \<le> k \<Longrightarrow> 0 < l \<Longrightarrow> k smod l = k mod (l::int)"
  by (cases "k = 0") (simp_all add: signed_modulo_int_def)

lemma small_mod: "0 \<le> t \<Longrightarrow> t < 456 \<Longrightarrow> t mod 456 = (t::int)"
  by simp

lemma byte_is_of_nat: "(t::byte) \<in> of_nat ` set [0..<256]"
proof -
  have "unat t < 256" using unsigned_less[of t, where ?'a=nat] by simp
  moreover have "t = of_nat (unat t)" by simp
  ultimately show ?thesis by (metis atLeastLessThan_iff image_eqI set_upt zero_le)
qed

lemma low_byte_unat: "unat (fst (split16 w)) = unat w mod 256"
proof -
  have m: "(0xFF::16 word) = mask 8" by (simp add: mask_eq_exp_minus_1)
  have "w AND 0xFF = take_bit 8 w" unfolding m by (simp add: take_bit_eq_mask)
  then have "unat (ucast (w AND 0xFF) :: byte) = take_bit 8 (unat w)"
    by (simp add: unsigned_ucast_eq unsigned_take_bit_eq)
  then show ?thesis by (simp add: split16_def take_bit_eq_mod)
qed

lemma dma_base_unat: "unat (push_bit 8 (ucast (v::byte)) :: addr) = 256 * unat v"
proof -
  have "unat v < 256" using unsigned_less[of v, where ?'a=nat] by simp
  then have "unat (ucast v :: addr) * unat (256 :: addr) < 2 ^ LENGTH(16)"
    by (simp add: unat_ucast_byte)
  then have "unat ((ucast v :: addr) * 256) = unat (ucast v :: addr) * unat (256 :: addr)"
    by (simp only: unat_mult_lem)
  then show ?thesis by (simp add: push_bit_eq_mult unat_ucast_byte)
qed

lemma dma_cursor_unat:
  assumes "k < 256"
  shows "unat ((push_bit 8 (ucast (v::byte)) :: addr) + of_nat k) = 256 * unat v + k"
proof -
  have "unat v < 256" using unsigned_less[of v, where ?'a=nat] by simp
  then have b: "256 * unat v + k < 65536" using assms by simp
  have "unat (of_nat k :: addr) = k" using assms by (simp add: unat_of_nat)
  then show ?thesis using b by (simp add: unat_word_ariths dma_base_unat)
qed

section \<open>Facts about the MMU\<close>

subsection \<open>Regions, reads and silent stores\<close>

lemma area_cover:
  "inBank0ROMArea a \<or> inBankedROMArea a \<or> inVideoRAMArea a \<or> inRAMArea a \<or> inBankedRAMArea a
   \<or> inRAMMirrorArea a \<or> inOAMArea a \<or> inInvalidArea a \<or> inIOArea a \<or> inHRAMArea a"
proof -
  have "unat a < 65536" using unsigned_less[of a, where ?'a=nat] by simp
  then show ?thesis
    unfolding area_defs addr_defs word_le_nat_alt word_less_nat_alt by simp linarith
qed

lemma at_video: "inVideoRAMArea a \<Longrightarrow> at m a = idx (videoRAM m) (unat (a - videoRAMAddr))"
  unfolding at_def area_defs addr_defs word_le_nat_alt word_less_nat_alt by simp

lemma at_oam: "inOAMArea a \<Longrightarrow> at m a = idx (oamRAM m) (unat (a - oamRAMAddr))"
  unfolding at_def area_defs addr_defs word_le_nat_alt word_less_nat_alt by simp

lemma at_io: "inIOArea a \<Longrightarrow> at m a = idx (ioRAM m) (unat (a - ioAddr))"
  unfolding at_def area_defs addr_defs word_le_nat_alt word_less_nat_alt by simp

lemma at_hram: "inHRAMArea a \<Longrightarrow> at m a = idx (hram m) (unat (a - hramAddr))"
  unfolding at_def area_defs addr_defs word_le_nat_alt word_less_nat_alt by simp

lemma at_invalid: "inInvalidArea a \<Longrightarrow> at m a = Inr 0xFF"
  unfolding at_def area_defs addr_defs word_le_nat_alt word_less_nat_alt by simp

lemma set_video: "inVideoRAMArea a \<Longrightarrow> setNoNotify m a v =
   bindE (upd (videoRAM m) (unat (a - videoRAMAddr)) v) (\<lambda>xs. Inr (m\<lparr>videoRAM := xs\<rparr>))"
  unfolding setNoNotify_def area_defs addr_defs word_le_nat_alt word_less_nat_alt by simp

lemma set_oam: "inOAMArea a \<Longrightarrow> setNoNotify m a v =
   bindE (upd (oamRAM m) (unat (a - oamRAMAddr)) v) (\<lambda>xs. Inr (m\<lparr>oamRAM := xs\<rparr>))"
  unfolding setNoNotify_def area_defs addr_defs word_le_nat_alt word_less_nat_alt by simp

lemma set_io: "inIOArea a \<Longrightarrow> setNoNotify m a v =
   bindE (upd (ioRAM m) (unat (a - ioAddr)) v) (\<lambda>xs. Inr (m\<lparr>ioRAM := xs\<rparr>))"
  unfolding setNoNotify_def area_defs addr_defs word_le_nat_alt word_less_nat_alt by simp

lemma set_hram: "inHRAMArea a \<Longrightarrow> setNoNotify m a v =
   bindE (upd (hram m) (unat (a - hramAddr)) v) (\<lambda>xs. Inr (m\<lparr>hram := xs\<rparr>))"
  unfolding setNoNotify_def area_defs addr_defs word_le_nat_alt word_less_nat_alt by simp

lemma set_invalid: "inInvalidArea a \<Longrightarrow> setNoNotify m a v = Inr m"
  unfolding setNoNotify_def area_defs addr_defs word_le_nat_alt word_less_nat_alt by simp

lemma video_off: "inVideoRAMArea a \<Longrightarrow> unat (a - videoRAMAddr) < 0x2000"
  unfolding area_defs addr_defs word_le_nat_alt word_less_nat_alt
  by (auto simp: unat_sub_if_size word_size)

lemma oam_off: "inOAMArea a \<Longrightarrow> unat (a - oamRAMAddr) < 0xA0"
  unfolding area_defs addr_defs word_le_nat_alt word_less_nat_alt
  by (auto simp: unat_sub_if_size word_size)

lemma io_off: "inIOArea a \<Longrightarrow> unat (a - ioAddr) < 0x80"
  unfolding area_defs addr_defs word_le_nat_alt word_less_nat_alt
  by (auto simp: unat_sub_if_size word_size)

lemma hram_off: "inHRAMArea a \<Longrightarrow> unat (a - hramAddr) < 0x80"
  unfolding area_defs addr_defs word_le_nat_alt word_less_nat_alt
  using unsigned_less[of a, where ?'a=nat]
  by (auto simp: unat_sub_if_size word_size)

lemma bank0_off: "inBank0ROMArea a \<Longrightarrow> unat (a - bank0ROMAddr) < 0x4000"
  unfolding area_defs addr_defs word_le_nat_alt word_less_nat_alt
  by (auto simp: unat_sub_if_size word_size)

lemma at_total: "mmu_wf m \<Longrightarrow> \<exists>v. at m a = Inr v"
  using area_cover[of a] video_off[of a] oam_off[of a] io_off[of a] hram_off[of a] bank0_off[of a]
  unfolding at_def mmu_wf_def idx_def by auto

lemma setNoNotify_total: "mmu_wf m \<Longrightarrow> \<exists>m'. setNoNotify m a v = Inr m' \<and> mmu_wf m'"
  using area_cover[of a] video_off[of a] oam_off[of a] io_off[of a] hram_off[of a]
  unfolding setNoNotify_def mmu_wf_def upd_def by auto

lemma setNoNotify_read_back:
  assumes "ownedArea a" "setNoNotify m a v = Inr m'"
  shows "at m' a = Inr v"
  using assms unfolding ownedArea_def
  by (auto simp: set_video set_oam set_io set_hram at_video at_oam at_io at_hram
      bindE_eq_Inr idx_def upd_def split: if_splits)

lemma setNoNotify_keeps [simp]:
  assumes "setNoNotify m a v = Inr m'"
  shows "subscribers m' = subscribers m" "dmaActive m' = dmaActive m"
    "dmaCursor m' = dmaCursor m" "dmaCycleCount m' = dmaCycleCount m" "bank0ROM m' = bank0ROM m"
  using assms unfolding setNoNotify_def
  by (auto simp: bindE_eq_Inr split: if_splits)

lemma setNoNotify_wf:
  assumes "setNoNotify m a v = Inr m'" "mmu_wf m"
  shows "mmu_wf m'"
  using assms unfolding setNoNotify_def mmu_wf_def
  by (auto simp: bindE_eq_Inr upd_def split: if_splits)

lemma setNoNotify_io_frame:
  assumes "setNoNotify m a w = Inr m'" "a \<noteq> b" "inIOArea b"
  shows "at m' b = at m b"
proof -
  have ne: "unat (a - ioAddr) \<noteq> unat (b - ioAddr)"
    using assms(2) unat_off_inj by blast
  show ?thesis
    using assms(1) ne unfolding at_io[OF assms(3)] setNoNotify_def
    by (auto simp: bindE_eq_Inr idx_def upd_def split: if_splits)
qed

lemma at_cong_buffers:
  assumes "ioRAM m' = ioRAM m" "videoRAM m' = videoRAM m" "oamRAM m' = oamRAM m"
    "hram m' = hram m" "bank0ROM m' = bank0ROM m" "mbc m' = mbc m"
  shows "at m' a = at m a"
  using assms unfolding at_def by simp

lemma wf_cong_buffers:
  assumes "ioRAM m' = ioRAM m" "videoRAM m' = videoRAM m" "oamRAM m' = oamRAM m"
    "hram m' = hram m" "bank0ROM m' = bank0ROM m"
  shows "mmu_wf m' = mmu_wf m"
  using assms unfolding mmu_wf_def by simp

lemma at_frame_oam:
  assumes "\<not> inOAMArea a" "videoRAM m' = videoRAM m" "ioRAM m' = ioRAM m" "hram m' = hram m"
    "bank0ROM m' = bank0ROM m" "mbc m' = mbc m"
  shows "at m' a = at m a"
  using assms unfolding at_def by simp

lemma io_regs:
  "inIOArea dividerAddr" "inIOArea timaAddr" "inIOArea tmaAddr" "inIOArea tacAddr"
  "inIOArea ifAddr" "inIOArea lcdcAddr" "inIOArea statAddr" "inIOArea scrollYAddr"
  "inIOArea scrollXAddr" "inIOArea lyAddr" "inIOArea dmaAddr" "inIOArea bgpAddr"
  "inHRAMArea ieAddr"
  by (simp_all add: area_defs addr_defs)

lemma io_offsets:
  "unat (lcdcAddr - ioAddr) = 0x40" "unat (statAddr - ioAddr) = 0x41"
  "unat (scrollYAddr - ioAddr) = 0x42" "unat (scrollXAddr - ioAddr) = 0x43"
  "unat (lyAddr - ioAddr) = 0x44" "unat (bgpAddr - ioAddr) = 0x47"
  "unat (ifAddr - ioAddr) = 0x0F" "unat (ieAddr - hramAddr) = 0x7F"
  by (simp_all add: addr_defs)

lemma io_read: "inIOArea a \<Longrightarrow> mmu_wf m \<Longrightarrow> at m a = Inr (ioRAM m ! unat (a - ioAddr))"
  using io_off[of a] by (simp add: at_io idx_def mmu_wf_def)

lemma io_write:
  "inIOArea a \<Longrightarrow> mmu_wf m \<Longrightarrow>
   setNoNotify m a v = Inr (m\<lparr>ioRAM := (ioRAM m)[unat (a - ioAddr) := v]\<rparr>)"
  using io_off[of a] by (simp add: set_io upd_def mmu_wf_def)

lemma hram_read: "inHRAMArea a \<Longrightarrow> mmu_wf m \<Longrightarrow> at m a = Inr (hram m ! unat (a - hramAddr))"
  using hram_off[of a] by (simp add: at_hram idx_def mmu_wf_def)

lemma io_reads:
  assumes "mmu_wf m"
  shows "at m lcdcAddr = Inr (ioRAM m ! 0x40)" "at m statAddr = Inr (ioRAM m ! 0x41)"
    "at m scrollYAddr = Inr (ioRAM m ! 0x42)" "at m scrollXAddr = Inr (ioRAM m ! 0x43)"
    "at m lyAddr = Inr (ioRAM m ! 0x44)" "at m ifAddr = Inr (ioRAM m ! 0x0F)"
    "at m ieAddr = Inr (hram m ! 0x7F)"
  using io_read[OF io_regs(6) assms] io_read[OF io_regs(7) assms] io_read[OF io_regs(8) assms]
    io_read[OF io_regs(9) assms] io_read[OF io_regs(10) assms] io_read[OF io_regs(5) assms]
    hram_read[OF io_regs(13) assms]
  by (simp_all add: io_offsets)

lemma vram_read:
  assumes "mmu_wf m" "j < 0x2000"
  shows "at m (0x8000 + of_nat j) = Inr (videoRAM m ! j)"
proof -
  have u: "unat (of_nat j :: addr) = j" using assms(2) by (simp add: unat_of_nat)
  then have s: "unat ((0x8000::addr) + of_nat j) = 32768 + j"
    using assms(2) by (simp add: unat_word_ariths)
  have a: "inVideoRAMArea (0x8000 + of_nat j)"
    using s assms(2) unfolding area_defs addr_defs word_le_nat_alt word_less_nat_alt by simp
  have "unat ((0x8000::addr) + of_nat j - videoRAMAddr) = j" using u by (simp add: addr_defs)
  then show ?thesis using assms by (simp add: at_video[OF a] idx_def mmu_wf_def)
qed

subsection \<open>Observed writes\<close>

lemma onWrite_keeps:
  assumes "onWrite f st a v = Inr (v', st')"
  shows "ioRAM (mmu st') = ioRAM (mmu st)" "videoRAM (mmu st') = videoRAM (mmu st)"
    "oamRAM (mmu st') = oamRAM (mmu st)" "hram (mmu st') = hram (mmu st)"
    "bank0ROM (mmu st') = bank0ROM (mmu st)" "mbc (mmu st') = mbc (mmu st)"
    "subscribers (mmu st') = subscribers (mmu st)"
    "video st' = video st" "interruptsEnabled st' = interruptsEnabled st"
  using assms unfolding onWrite_def onDMAWrite_def onDividerWrite_def onTACWrite_def
  by (auto simp: bindE_eq_Inr Let_def split: onWriteFunc.splits if_splits)

lemma mmu_set_cases:
  assumes "mmu_set st a v = Inr st'"
  obtains (none) m' where "subscribers (mmu st) a = None" "setNoNotify (mmu st) a v = Inr m'"
      "st' = st\<lparr>mmu := m'\<rparr>"
  | (some) f v' st1 m' where "subscribers (mmu st) a = Some f" "onWrite f st a v = Inr (v', st1)"
      "setNoNotify (mmu st1) a v' = Inr m'" "st' = st1\<lparr>mmu := m'\<rparr>"
  using assms unfolding mmu_set_def
  by (auto simp: bindE_eq_Inr split: option.splits prod.splits)

lemma mmu_set_io_frame:
  assumes "mmu_set st a w = Inr st'" "a \<noteq> b" "inIOArea b"
  shows "at (mmu st') b = at (mmu st) b"
  using assms(1)
proof (cases rule: mmu_set_cases)
  case (none m')
  then show ?thesis using setNoNotify_io_frame[OF none(2) assms(2,3)] by simp
next
  case (some f v' st1 m')
  have "at (mmu st1) b = at (mmu st) b"
    using onWrite_keeps[OF some(2)] by (intro at_cong_buffers) simp_all
  then show ?thesis using setNoNotify_io_frame[OF some(3) assms(2,3)] some(4) by simp
qed

lemma mmu_set_wf:
  assumes "mmu_set st a w = Inr st'" "mmu_wf (mmu st)"
  shows "mmu_wf (mmu st')"
  using assms(1)
proof (cases rule: mmu_set_cases)
  case (none m')
  then show ?thesis using setNoNotify_wf assms(2) by auto
next
  case (some f v' st1 m')
  have "mmu_wf (mmu st1)"
    using onWrite_keeps[OF some(2)] assms(2) wf_cong_buffers[of "mmu st1" "mmu st"] by simp
  then show ?thesis using setNoNotify_wf some by auto
qed

lemma io_nosub_write:
  assumes "mmu_wf (mmu st)" "inIOArea a" "subscribers (mmu st) a = None"
  shows "mmu_set st a w =
     Inr (st\<lparr>mmu := (mmu st)\<lparr>ioRAM := (ioRAM (mmu st))[unat (a - ioAddr) := w]\<rparr>\<rparr>)"
  using io_write[OF assms(2,1)] assms(3) by (simp add: mmu_set_def)

lemma vram_write:
  assumes "mmu_wf (mmu st)" "inVideoRAMArea a" "subscribers (mmu st) a = None"
  shows "mmu_set st a w =
     Inr (st\<lparr>mmu := (mmu st)\<lparr>videoRAM := (videoRAM (mmu st))[unat (a - videoRAMAddr) := w]\<rparr>\<rparr>)"
  using video_off[OF assms(2)] assms(1,3)
  by (simp add: mmu_set_def set_video[OF assms(2)] upd_def mmu_wf_def)

lemma io_store:
  assumes "mmu_wf (mmu st)" "inIOArea a"
  shows "\<exists>st'. storeSilent st a w = Inr st' \<and> at (mmu st') a = Inr w
     \<and> (\<forall>b. b \<noteq> a \<and> inIOArea b \<longrightarrow> at (mmu st') b = at (mmu st) b)
     \<and> timers st' = timers st \<and> mmu_wf (mmu st') \<and> interruptsEnabled st' = interruptsEnabled st
     \<and> video st' = video st \<and> subscribers (mmu st') = subscribers (mmu st)
     \<and> hram (mmu st') = hram (mmu st) \<and> videoRAM (mmu st') = videoRAM (mmu st)"
proof -
  obtain m' where s: "setNoNotify (mmu st) a w = Inr m'" "mmu_wf m'"
    using setNoNotify_total[OF assms(1)] by blast
  have r: "at m' a = Inr w"
    using setNoNotify_read_back[OF _ s(1)] assms(2) by (simp add: ownedArea_def)
  have f: "at m' b = at (mmu st) b" if "b \<noteq> a" "inIOArea b" for b
    using setNoNotify_io_frame[OF s(1) _ that(2)] that(1) by blast
  have k: "hram m' = hram (mmu st)" "videoRAM m' = videoRAM (mmu st)"
    using s(1) assms(2) by (auto simp: set_io bindE_eq_Inr)
  show ?thesis using s r f k setNoNotify_keeps(1)[OF s(1)] by (simp add: storeSilent_def)
qed

lemma if_write:
  assumes "mmu_wf (mmu st)"
  shows "\<exists>st'. storeSilent st ifAddr w = Inr st' \<and> at (mmu st') ifAddr = Inr w
     \<and> timers st' = timers st \<and> mmu_wf (mmu st') \<and> interruptsEnabled st' = interruptsEnabled st
     \<and> video st' = video st \<and> subscribers (mmu st') = subscribers (mmu st)"
proof -
  obtain m' where s: "setNoNotify (mmu st) ifAddr w = Inr m'" "mmu_wf m'"
    using setNoNotify_total[OF assms] by blast
  have "at m' ifAddr = Inr w"
    using setNoNotify_read_back[OF _ s(1)] io_regs by (simp add: ownedArea_def)
  then show ?thesis using s setNoNotify_keeps(1)[OF s(1)] by (simp add: storeSilent_def)
qed

lemma dma_active_panic:
  assumes "subscribers (mmu st) dmaAddr = Some OnDMAWrite" "dmaActive (mmu st)"
  shows "mmu_set st dmaAddr v = Inl (DMAAlreadyActive v)"
  using assms by (simp add: mmu_set_def onWrite_def onDMAWrite_def)

lemma dma_write_idle:
  assumes "subscribers (mmu st) dmaAddr = Some OnDMAWrite" "mmu_wf (mmu st)"
    "\<not> dmaActive (mmu st)"
  shows "mmu_set st dmaAddr v =
     Inr (st\<lparr>mmu := (mmu st)\<lparr>dmaActive := True, dmaCursor := push_bit 8 (ucast v),
        dmaCycleCount := 0, ioRAM := (ioRAM (mmu st))[0x46 := v]\<rparr>\<rparr>)"
proof -
  let ?m1 = "(mmu st)\<lparr>dmaActive := True, dmaCursor := push_bit 8 (ucast v), dmaCycleCount := 0\<rparr>"
  have wf1: "mmu_wf ?m1" using assms(2) by (simp add: mmu_wf_def)
  have "unat (dmaAddr - ioAddr) = 0x46" by (simp add: addr_defs)
  then have "setNoNotify ?m1 dmaAddr v = Inr (?m1\<lparr>ioRAM := (ioRAM ?m1)[0x46 := v]\<rparr>)"
    using io_write[OF io_regs(11) wf1, of v] by simp
  then show ?thesis
    using assms(1,3) by (simp add: mmu_set_def onWrite_def onDMAWrite_def)
qed

subsection \<open>The DMA loop\<close>

lemma split16_low_lt: "fst (split16 w) < 0x9F \<Longrightarrow> inOAMArea (oamRAMAddr + ucast (fst (split16 w)))"
proof -
  assume a: "fst (split16 w) < 0x9F"
  let ?l = "fst (split16 w)"
  have l: "unat ?l < 159" using a by (simp add: word_less_nat_alt)
  have "unat (ucast ?l :: addr) = unat ?l" by (rule unat_ucast_byte)
  then have "unat (oamRAMAddr + ucast ?l) = 65024 + unat ?l"
    using l by (simp add: addr_defs unat_word_ariths)
  then show ?thesis using l
    unfolding area_defs addr_defs word_le_nat_alt word_less_nat_alt by simp
qed

lemma oam_off_low:
  assumes "fst (split16 w) < 0x9F"
  shows "unat (oamRAMAddr + ucast (fst (split16 w)) - oamRAMAddr) < 159"
proof -
  let ?l = "fst (split16 w)"
  have l: "unat ?l < 159" using assms by (simp add: word_less_nat_alt)
  have "unat (ucast ?l :: addr) = unat ?l" by (rule unat_ucast_byte)
  then show ?thesis using l by simp
qed

lemma dmaStep_props:
  assumes "mmu_wf m"
  shows "\<exists>m'. dmaStep m = Inr m' \<and> mmu_wf m'
     \<and> oamRAM m' ! 0x9F = oamRAM m ! 0x9F
     \<and> videoRAM m' = videoRAM m \<and> ioRAM m' = ioRAM m \<and> hram m' = hram m
     \<and> bank0ROM m' = bank0ROM m \<and> mbc m' = mbc m \<and> subscribers m' = subscribers m"
proof (cases "dmaActive m \<and> fst (split16 (dmaCursor m)) < 0x9F")
  case False
  then show ?thesis using assms
    by (auto simp: dmaStep_def Let_def mmu_wf_def)
next
  case True
  let ?a = "oamRAMAddr + ucast (fst (split16 (dmaCursor m)))"
  obtain v where v: "at m (dmaCursor m) = Inr v" using at_total[OF assms] by blast
  have oa: "inOAMArea ?a" using True split16_low_lt by blast
  have off: "unat (?a - oamRAMAddr) < 159" using True oam_off_low by blast
  have len: "length (oamRAM m) = 160" using assms by (simp add: mmu_wf_def)
  have st: "setNoNotify m ?a v = Inr (m\<lparr>oamRAM := (oamRAM m)[unat (?a - oamRAMAddr) := v]\<rparr>)"
    using off len by (simp add: set_oam[OF oa] upd_def)
  show ?thesis
    using True v st off assms
    by (auto simp: dmaStep_def Let_def mmu_wf_def)
qed

lemma tickLoop_props:
  assumes "mmu_wf m"
  shows "\<exists>m'. tickLoop n m = Inr m' \<and> mmu_wf m'
     \<and> oamRAM m' ! 0x9F = oamRAM m ! 0x9F
     \<and> videoRAM m' = videoRAM m \<and> ioRAM m' = ioRAM m \<and> hram m' = hram m
     \<and> bank0ROM m' = bank0ROM m \<and> mbc m' = mbc m \<and> subscribers m' = subscribers m"
  using assms
proof (induction n arbitrary: m)
  case 0
  then show ?case by simp
next
  case (Suc n)
  from dmaStep_props[OF Suc.prems] obtain m1 where
    s: "dmaStep m = Inr m1" "mmu_wf m1" "oamRAM m1 ! 0x9F = oamRAM m ! 0x9F"
     "videoRAM m1 = videoRAM m" "ioRAM m1 = ioRAM m" "hram m1 = hram m"
     "bank0ROM m1 = bank0ROM m" "mbc m1 = mbc m" "subscribers m1 = subscribers m"
    by blast
  from Suc.IH[OF s(2)] s show ?case by auto
qed

lemma dma_source_not_oam:
  assumes "v \<noteq> 0xFE" "j < 160"
  shows "\<not> inOAMArea ((push_bit 8 (ucast (v::byte)) :: addr) + of_nat j)"
proof -
  have u: "unat v \<noteq> 254"
  proof
    assume "unat v = 254"
    moreover have "v = of_nat (unat v)" by simp
    ultimately have "v = of_nat 254" by simp
    then show False using assms(1) by simp
  qed
  have "unat ((push_bit 8 (ucast v) :: addr) + of_nat j) = 256 * unat v + j"
    using assms(2) by (intro dma_cursor_unat) simp
  then show ?thesis using u assms(2)
    unfolding area_defs addr_defs word_le_nat_alt word_less_nat_alt by simp
qed

lemma dma_low_byte:
  assumes "k < 256"
  shows "unat (fst (split16 ((push_bit 8 (ucast (v::byte)) :: addr) + of_nat k))) = k"
  using assms by (simp add: low_byte_unat dma_cursor_unat)

lemma oam_target:
  assumes "unat (l::byte) = k" "k < 160"
  shows "inOAMArea (oamRAMAddr + ucast l)" "unat (oamRAMAddr + ucast l - oamRAMAddr) = k"
proof -
  have "unat (ucast l :: addr) = k" using assms(1) by (simp add: unat_ucast_byte)
  then have "unat (oamRAMAddr + ucast l) = 65024 + k"
    using assms(2) by (simp add: addr_defs unat_word_ariths)
  then show "inOAMArea (oamRAMAddr + ucast l)" using assms(2)
    unfolding area_defs addr_defs word_le_nat_alt word_less_nat_alt by simp
  show "unat (oamRAMAddr + ucast l - oamRAMAddr) = k"
    using assms(1) by (simp add: unat_ucast_byte)
qed

lemma dmaStep_copy:
  fixes v :: byte
  defines "base \<equiv> (push_bit 8 (ucast v) :: addr)"
  assumes wf: "mmu_wf m" and act: "dmaActive m"
    and cnt: "dmaCycleCount m = int k" "k < 671"
    and cur: "dmaCursor m = base + of_nat (min k 159)"
    and rd: "at m (dmaCursor m) = Inr b"
  shows "dmaStep m =
     Inr (m\<lparr>oamRAM := (if k < 159 then (oamRAM m)[k := b] else oamRAM m),
            dmaCursor := base + of_nat (min (Suc k) 159),
            dmaCycleCount := int (Suc k)\<rparr>)"
proof (cases "k < 159")
  case True
  let ?l = "fst (split16 (dmaCursor m))"
  have lk: "unat ?l = k" using True cur dma_low_byte[of k v] by (simp add: base_def)
  then have lt: "?l < 0x9F" using True by (simp add: word_less_nat_alt)
  have tg: "inOAMArea (oamRAMAddr + ucast ?l)" "unat (oamRAMAddr + ucast ?l - oamRAMAddr) = k"
    using oam_target[OF lk] True by simp_all
  have len: "length (oamRAM m) = 160" using wf by (simp add: mmu_wf_def)
  have st: "setNoNotify m (oamRAMAddr + ucast ?l) b = Inr (m\<lparr>oamRAM := (oamRAM m)[k := b]\<rparr>)"
    using tg True len by (simp add: set_oam upd_def)
  have c: "dmaCursor m + 1 = base + of_nat (min (Suc k) 159)"
    using True cur by simp
  show ?thesis
    using True act lt rd st c cnt
    by (simp add: dmaStep_def Let_def dmaCycleLength_def)
next
  case False
  let ?l = "fst (split16 (dmaCursor m))"
  have "unat ?l = 159" using False cur dma_low_byte[of 159 v] by (simp add: base_def)
  then have lt: "\<not> ?l < 0x9F" by (simp add: word_less_nat_alt)
  have c: "dmaCursor m = base + of_nat (min (Suc k) 159)" using False cur by simp
  have "dmaStep m = Inr (m\<lparr>dmaCycleCount := int (Suc k)\<rparr>)"
    using act lt cnt by (simp add: dmaStep_def Let_def dmaCycleLength_def)
  moreover have "m\<lparr>dmaCycleCount := int (Suc k)\<rparr> =
      m\<lparr>oamRAM := oamRAM m, dmaCursor := base + of_nat (min (Suc k) 159),
        dmaCycleCount := int (Suc k)\<rparr>"
    using c by simp
  ultimately show ?thesis using False by simp
qed

lemma tickLoop_copy:
  fixes v :: byte and src :: "nat \<Rightarrow> byte"
  defines "base \<equiv> (push_bit 8 (ucast v) :: addr)"
  assumes wf: "mmu_wf m" and act: "dmaActive m"
    and cnt: "dmaCycleCount m = int k" "k + n \<le> 671"
    and cur: "dmaCursor m = base + of_nat (min k 159)"
    and nfe: "v \<noteq> 0xFE"
    and src: "\<forall>j<159. at m (base + of_nat j) = Inr (src j)"
    and filled: "\<forall>j<min k 159. oamRAM m ! j = src j"
  shows "\<exists>m'. tickLoop n m = Inr m' \<and> mmu_wf m' \<and> dmaActive m'
     \<and> dmaCycleCount m' = int (k + n)
     \<and> dmaCursor m' = base + of_nat (min (k + n) 159)
     \<and> (\<forall>j<min (k + n) 159. oamRAM m' ! j = src j)
     \<and> (\<forall>j<159. at m' (base + of_nat j) = Inr (src j))"
  using wf act cnt cur src filled
proof (induction n arbitrary: m k)
  case 0
  then show ?case by simp
next
  case (Suc n)
  have kl: "k < 671" using Suc.prems(4) by simp
  obtain b where b: "at m (dmaCursor m) = Inr b" using at_total[OF Suc.prems(1)] by blast
  have bs: "k < 159 \<Longrightarrow> b = src k" using b Suc.prems(5,6) by simp
  let ?m1 = "m\<lparr>oamRAM := (if k < 159 then (oamRAM m)[k := b] else oamRAM m),
            dmaCursor := base + of_nat (min (Suc k) 159),
            dmaCycleCount := int (Suc k)\<rparr>"
  have step: "dmaStep m = Inr ?m1"
    using dmaStep_copy[OF Suc.prems(1,2,3) kl, of v b] Suc.prems(5) b by (simp add: base_def)
  have len: "length (oamRAM m) = 160" using Suc.prems(1) by (simp add: mmu_wf_def)
  have wf1: "mmu_wf ?m1" using Suc.prems(1) by (simp add: mmu_wf_def)
  have src1: "\<forall>j<159. at ?m1 (base + of_nat j) = Inr (src j)"
  proof (intro allI impI)
    fix j :: nat assume j: "j < 159"
    have "\<not> inOAMArea (base + of_nat j)"
      unfolding base_def using dma_source_not_oam[OF nfe, of j] j by simp
    then have "at ?m1 (base + of_nat j) = at m (base + of_nat j)"
      by (intro at_frame_oam) simp_all
    then show "at ?m1 (base + of_nat j) = Inr (src j)" using Suc.prems(6) j by simp
  qed
  have done1: "\<forall>j<min (Suc k) 159. oamRAM ?m1 ! j = src j"
    using Suc.prems(7) bs len by (auto simp: nth_list_update less_Suc_eq)
  obtain m' where r: "tickLoop n ?m1 = Inr m'" "mmu_wf m'" "dmaActive m'"
     "dmaCycleCount m' = int (Suc k + n)"
     "dmaCursor m' = base + of_nat (min (Suc k + n) 159)"
     "\<forall>j<min (Suc k + n) 159. oamRAM m' ! j = src j"
     "\<forall>j<159. at m' (base + of_nat j) = Inr (src j)"
    using Suc.IH[of ?m1 "Suc k"] wf1 Suc.prems(2,4) src1 done1 by auto
  show ?case using step r by simp
qed

section \<open>Facts about the timers\<close>

lemma timerLoop_numeral:
  "timerLoop (numeral k) r b st = bindE (timerCycle r b st) (timerLoop (pred_numeral k) r b)"
  by (simp add: numeral_eq_Suc)

lemma signal_eq:
  "(timaBitOf (fst (parseTAC tac)) clk = 1 \<and> snd (parseTAC tac)) = spec_signal tac clk"
  using and3_cases[of tac]
  by (auto simp: parseTAC_def timaBitOf_def Let_def spec_signal_def spec_sourceBit_def
      bit_as_byte and4_bit)

lemma timerCycle_spec:
  assumes wf: "mmu_wf (mmu st)"
    and rd: "at (mmu st) tmaAddr = Inr tma" "at (mmu st) ieAddr = Inr ie"
      "at (mmu st) ifAddr = Inr flags"
  shows "\<exists>st'. timerCycle (fst (parseTAC tac)) (snd (parseTAC tac)) st = Inr st'
     \<and> cpuClock (timers st') = cpuClock (timers st) + 1
     \<and> timaDelay (timers st') = (if spec_signal tac (cpuClock (timers st) + 1) then 1 else 0)
     \<and> tima (timers st') =
         (if timaDelay (timers st) = 1 \<and> \<not> spec_signal tac (cpuClock (timers st) + 1)
          then (if tima (timers st) = 0xFF then tma else tima (timers st) + 1)
          else tima (timers st))
     \<and> at (mmu st') ifAddr =
         Inr (if timaDelay (timers st) = 1 \<and> \<not> spec_signal tac (cpuClock (timers st) + 1)
                 \<and> tima (timers st) = 0xFF \<and> interruptsEnabled st \<and> ie AND 0x04 = 0x04
              then flags OR 0x04 else flags)
     \<and> mmu_wf (mmu st')"
proof -
  let ?sig = "spec_signal tac (cpuClock (timers st) + 1)"
  let ?fall = "timaDelay (timers st) = 1 \<and> \<not> ?sig"
  have ovf: "tima (timers st) + 1 = 0 \<longleftrightarrow> tima (timers st) = 0xFF"
  proof -
    have e: "(0xFF::byte) = - 1" by simp
    have "tima (timers st) + 1 = 0 \<longleftrightarrow> tima (timers st) = - 1"
      by (rule eq_neg_iff_add_eq_0[symmetric])
    then show ?thesis unfolding e .
  qed
  show ?thesis
  proof (cases "?fall \<and> tima (timers st) = 0xFF \<and> interruptsEnabled st \<and> ie AND 0x04 = 0x04")
    case True
    let ?st3 = "st\<lparr>timers := (timers st)\<lparr>cpuClock := cpuClock (timers st) + 1, tima := tma\<rparr>\<rparr>"
    have wf3: "mmu_wf (mmu ?st3)" using wf by simp
    obtain st4 where w: "storeSilent ?st3 ifAddr (flags OR 0x04) = Inr st4"
       "at (mmu st4) ifAddr = Inr (flags OR 0x04)" "timers st4 = timers ?st3" "mmu_wf (mmu st4)"
      using if_write[OF wf3] by blast
    show ?thesis
      using True w rd signal_eq[of tac "cpuClock (timers st) + 1"]
      by (simp add: timerCycle_def Let_def)
  next
    case False
    show ?thesis
      using False rd wf ovf signal_eq[of tac "cpuClock (timers st) + 1"]
      by (auto simp: timerCycle_def Let_def)
  qed
qed

lemma tac_5: 
  assumes "(tac::byte) AND 0x07 = 0x05"
  shows "parseTAC tac = (262144, True)" "spec_signal tac clk = bit clk 3"
proof -
  have "tac AND 3 = (tac AND 7) AND 3" by (simp add: and.assoc)
  then have a: "tac AND 3 = 1" using assms by simp
  have "tac AND 4 = (tac AND 7) AND 4" by (simp add: and.assoc)
  then have b: "tac AND 4 = 4" using assms by simp
  show "parseTAC tac = (262144, True)" using a b by (simp add: parseTAC_def)
  show "spec_signal tac clk = bit clk 3"
    using a b by (simp add: spec_signal_def spec_sourceBit_def and4_bit[symmetric])
qed

section \<open>Facts about the video controller\<close>

subsection \<open>Background coordinates\<close>

lemma spec_bgCoord_sint: "spec_bgCoord x s = (x + sint s) mod 256"
proof -
  have "uint s = sint s mod 256" using uint_sint[of s] by (simp add: take_bit_eq_mod)
  then show ?thesis by (simp add: spec_bgCoord_def mod_add_right_eq)
qed

lemma bgWrap_agrees:
  assumes "0 \<le> x" "x < 160" "x + sint (asSigned s) \<noteq> 256"
  shows "bgWrap x (asSigned s) 256 = spec_bgCoord x s"
proof -
  let ?b = "x + sint s"
  have r: "- 128 \<le> ?b" "?b < 288" using sint_byte_range[of s] assms by auto
  have ne: "?b \<noteq> 256" using assms(3) by (simp add: asSigned_def)
  consider "?b < 0" | "0 \<le> ?b \<and> ?b < 256" | "256 < ?b" using ne by linarith
  then show ?thesis
  proof cases
    case 1
    then have "(?b + 256) mod 256 = ?b + 256" using r by (intro mod_pos_pos_trivial) auto
    then have "?b mod 256 = ?b + 256" by simp
    then show ?thesis using 1 by (simp add: bgWrap_def asSigned_def spec_bgCoord_sint)
  next
    case 2
    then have "?b mod 256 = ?b" by (intro mod_pos_pos_trivial) auto
    then show ?thesis using 2 by (simp add: bgWrap_def asSigned_def spec_bgCoord_sint)
  next
    case 3
    then have "(?b - 256) mod 256 = ?b - 256" using r by (intro mod_pos_pos_trivial) auto
    then have "?b mod 256 = ?b - 256" by simp
    then show ?thesis using 3 by (simp add: bgWrap_def asSigned_def spec_bgCoord_sint)
  qed
qed

lemma bgWrap_nonneg: "0 \<le> x \<Longrightarrow> 0 \<le> bgWrap x s 256"
  using sint_byte_range[of s] by (auto simp: bgWrap_def Let_def)

subsection \<open>The parts of the loop body\<close>

lemma loadLCDC_total:
  assumes "mmu_wf (mmu st)"
  shows "\<exists>c. loadLCDC st = Inr c
     \<and> (windowBGTileDataTableAddr c = tileDataTable0 \<or> windowBGTileDataTableAddr c = tileDataTable1)
     \<and> lcdOn c = (ioRAM (mmu st) ! 0x40 AND 0x80 = 0x80)"
  using io_read[OF io_regs(6) assms] by (simp add: loadLCDC_def io_offsets)

lemma setMode_eq:
  assumes "mmu_wf (mmu st)"
  shows "setMode st mode =
     Inr (st\<lparr>mmu := (mmu st)\<lparr>ioRAM := (ioRAM (mmu st))[0x41 := (ioRAM (mmu st) ! 0x41 AND 0xFC) OR mode]\<rparr>\<rparr>)"
  using io_read[OF io_regs(7) assms] io_write[OF io_regs(7) assms]
  by (simp add: setMode_def storeSilent_def io_offsets)

lemma ly_write_eq:
  assumes "mmu_wf (mmu st)" "subscribers (mmu st) lyAddr = None"
  shows "mmu_set st lyAddr w = Inr (st\<lparr>mmu := (mmu st)\<lparr>ioRAM := (ioRAM (mmu st))[0x44 := w]\<rparr>\<rparr>)"
  using io_write[OF io_regs(10) assms(1)] assms(2)
  by (simp add: mmu_set_def io_offsets)

lemma if_write_eq:
  assumes "mmu_wf (mmu st)" "subscribers (mmu st) ifAddr = None"
  shows "mmu_set st ifAddr w = Inr (st\<lparr>mmu := (mmu st)\<lparr>ioRAM := (ioRAM (mmu st))[0x0F := w]\<rparr>\<rparr>)"
  using io_write[OF io_regs(5) assms(1)] assms(2)
  by (simp add: mmu_set_def io_offsets)

lemma loadBGPalette_eq:
  assumes "mmu_wf (mmu st)"
  shows "loadBGPalette st = Inr (paletteLoop [0, 1, 2, 3] (ioRAM (mmu st) ! 0x47) Map.empty)"
  using io_read[OF io_regs(12) assms] by (simp add: loadBGPalette_def io_offsets)

lemma tileRowLoop_total:
  assumes "length td = 64" "y < 8" "\<forall>x\<in>set xs. x < 8"
  shows "\<exists>td'. tileRowLoop xs y lower upper td = Inr td' \<and> length td' = 64"
  using assms
proof (induction xs arbitrary: lower upper td)
  case Nil
  then show ?case by simp
next
  case (Cons x xs)
  have "y * 8 + x < 64" using Cons.prems by simp
  then have u: "upd td (y * 8 + x) v = Inr (td[y * 8 + x := v])" for v
    using Cons.prems(1) by (simp add: upd_def)
  show ?case
    using Cons.IH[of "td[y * 8 + x := _]"] Cons.prems u by (simp add: Let_def)
qed

lemma tileRowsLoop_total:
  assumes "mmu_wf m" "length td = 64" "\<forall>y\<in>set ys. y < 8"
  shows "\<exists>td'. tileRowsLoop ys m a td = Inr td' \<and> length td' = 64"
  using assms
proof (induction ys arbitrary: td)
  case Nil
  then show ?case by simp
next
  case (Cons y ys)
  obtain lo where lo: "at m (a + of_nat (y * 2)) = Inr lo" using at_total[OF Cons.prems(1)] by blast
  obtain up where up: "at m (a + of_nat ((y * 2) + 1)) = Inr up" using at_total[OF Cons.prems(1)] by blast
  obtain td1 where r: "tileRowLoop [0..<8] y lo up td = Inr td1" "length td1 = 64"
    using tileRowLoop_total[of td y "[0..<8]" lo up] Cons.prems by auto
  show ?case using Cons.IH[OF Cons.prems(1) r(2)] Cons.prems(3) lo up r(1) by simp
qed

lemma loadTile_total:
  assumes "mmu_wf (mmu st)"
    "windowBGTileDataTableAddr (lcdc (video st)) = tileDataTable0
     \<or> windowBGTileDataTableAddr (lcdc (video st)) = tileDataTable1"
  shows "\<exists>d. loadTile st t = Inr d \<and> length d = 64"
  using assms(2) tileRowsLoop_total[OF assms(1), of "replicate 64 0" "[0..<8]"]
  by (auto simp: loadTile_def)

lemma loadTilesLoop_total:
  assumes "mmu_wf (mmu st)"
    "windowBGTileDataTableAddr (lcdc (video st)) = tileDataTable0
     \<or> windowBGTileDataTableAddr (lcdc (video st)) = tileDataTable1"
  shows "\<exists>tm'. loadTilesLoop is st tm = Inr tm'
     \<and> (\<forall>t. (t \<in> of_nat ` set is \<longrightarrow> (\<exists>d. tm' t = Some d \<and> length d = 64))
           \<and> (t \<notin> of_nat ` set is \<longrightarrow> tm' t = tm t))"
proof (induction "is" arbitrary: tm)
  case Nil
  then show ?case by simp
next
  case (Cons i "is")
  obtain d where d: "loadTile st (of_nat i) = Inr d" "length d = 64"
    using loadTile_total[OF assms] by blast
  obtain tm' where t: "loadTilesLoop is st (tm(of_nat i \<mapsto> d)) = Inr tm'"
    "\<forall>t. (t \<in> of_nat ` set is \<longrightarrow> (\<exists>d. tm' t = Some d \<and> length d = 64))
           \<and> (t \<notin> of_nat ` set is \<longrightarrow> tm' t = (tm(of_nat i \<mapsto> d)) t)"
    using Cons.IH[of "tm(of_nat i \<mapsto> d)"] by blast
  show ?case using d t by (auto split: if_splits)
qed

lemma loadBGTiles_total:
  assumes "mmu_wf (mmu st)"
    "windowBGTileDataTableAddr (lcdc (video st)) = tileDataTable0
     \<or> windowBGTileDataTableAddr (lcdc (video st)) = tileDataTable1"
  shows "\<exists>tm. loadBGTiles st = Inr tm \<and> tiles_ok tm"
  using loadTilesLoop_total[OF assms, of "[0..<256]" Map.empty] byte_is_of_nat
  unfolding loadBGTiles_def tiles_ok_def by blast

lemma drawnPoints_append: "drawnPoints (xs @ ys) = drawnPoints xs @ drawnPoints ys"
  by (induction xs rule: drawnPoints.induct) simp_all

lemma drawDot_eq:
  assumes "mmu_wf (mmu st)" "tiles_ok (tiles (video st))" "0 \<le> x" "0 \<le> line"
  shows "\<exists>cr cg cb ca. drawDot st line x =
     Inr (st\<lparr>video := (video st)\<lparr>renderer :=
            renderer (video st) @ [RSetDrawColor cr cg cb ca, RDrawPoint x line]\<rparr>\<rparr>)"
proof -
  let ?bgX = "bgWrap x (scrollX (video st)) bgWidth"
  let ?bgY = "bgWrap line (scrollY (video st)) bgHeight"
  have nx: "0 \<le> ?bgX" and ny: "0 \<le> ?bgY"
    using bgWrap_nonneg assms(3,4) by (simp_all add: video_defs)
  obtain tileID where rd: "at (mmu st)
      (bgTileMapAddr (lcdc (video st)) + word_of_int (bgTileOffset (video st) x line)) = Inr tileID"
    using at_total[OF assms(1)] by blast
  have t: "bgTileAt st x line = Inr (tileID, ?bgX smod bgTileWidth, ?bgY smod bgTileHeight)"
    using rd by (simp add: bgTileAt_def Let_def)
  obtain d where d: "tiles (video st) tileID = Some d" "length d = 64"
    using assms(2) unfolding tiles_ok_def by blast
  have mx: "?bgX smod bgTileWidth = ?bgX mod 8" using nx by (simp add: smod_nonneg video_defs)
  have my: "?bgY smod bgTileHeight = ?bgY mod 8" using ny by (simp add: smod_nonneg video_defs)
  have rng: "0 \<le> ?bgY mod 8 * 8 + ?bgX mod 8" "?bgY mod 8 * 8 + ?bgX mod 8 < 64"
  proof -
    have "0 \<le> ?bgY mod 8" "?bgY mod 8 < 8" "0 \<le> ?bgX mod 8" "?bgX mod 8 < 8" by simp_all
    then show "0 \<le> ?bgY mod 8 * 8 + ?bgX mod 8" "?bgY mod 8 * 8 + ?bgX mod 8 < 64" by linarith+
  qed
  have i: "idxInt d (?bgY mod 8 * bgTileHeight + ?bgX mod 8) = Inr (d ! nat (?bgY mod 8 * 8 + ?bgX mod 8))"
    using rng d(2) by (simp add: idxInt_def video_defs)
  show ?thesis
    using t d(1) i mx my by (auto simp: drawDot_def split: color.splits option.splits)
qed

lemma drawLoop_eq:
  assumes "mmu_wf (mmu st)" "tiles_ok (tiles (video st))" "0 \<le> line"
  shows "\<exists>ds. drawLoop xs line st =
       Inr (st\<lparr>video := (video st)\<lparr>renderer := renderer (video st) @ ds\<rparr>\<rparr>)
     \<and> drawnPoints ds = map (\<lambda>x. (int x, line)) xs"
  using assms
proof (induction xs arbitrary: st)
  case Nil
  show ?case by (intro exI[of _ "[]"]) simp
next
  case (Cons x xs)
  obtain cr cg cb ca where d: "drawDot st line (int x) =
     Inr (st\<lparr>video := (video st)\<lparr>renderer :=
            renderer (video st) @ [RSetDrawColor cr cg cb ca, RDrawPoint (int x) line]\<rparr>\<rparr>)"
    using drawDot_eq[OF Cons.prems(1,2) _ Cons.prems(3), of "int x"] by auto
  let ?st1 = "st\<lparr>video := (video st)\<lparr>renderer :=
            renderer (video st) @ [RSetDrawColor cr cg cb ca, RDrawPoint (int x) line]\<rparr>\<rparr>"
  obtain ds where r: "drawLoop xs line ?st1 =
       Inr (?st1\<lparr>video := (video ?st1)\<lparr>renderer := renderer (video ?st1) @ ds\<rparr>\<rparr>)"
     "drawnPoints ds = map (\<lambda>x. (int x, line)) xs"
    using Cons.IH[of ?st1] Cons.prems by auto
  show ?case
    using d r
    by (intro exI[of _ "[RSetDrawColor cr cg cb ca, RDrawPoint (int x) line] @ ds"]) simp
qed

lemma drawScanLine_eq:
  assumes "mmu_wf (mmu st)" "tiles_ok (tiles (video st))" "0 \<le> line"
  shows "\<exists>ds. drawScanLine st line =
       Inr (st\<lparr>video := (video st)\<lparr>renderer := renderer (video st) @ ds\<rparr>\<rparr>)
     \<and> drawnPoints ds = map (\<lambda>x. (int x, line)) [0..<160]"
  using drawLoop_eq[OF assms, of "[0..<160]"] by (simp add: drawScanLine_def video_defs)

subsection \<open>One iteration, case by case\<close>

lemma vcStep_quiet:
  assumes inv: "vc_inv st" and q: "\<not> vcSpecial (frameTick (video st))"
  shows "vcStep st =
     Inr (st\<lparr>mmu := (mmu st)\<lparr>ioRAM := (ioRAM (mmu st))[0x44 := word_of_int (frameTick (video st) div 456)]\<rparr>,
             video := (video st)\<lparr>frameTick := frameTick (video st) + 1\<rparr>\<rparr>)"
proof -
  let ?ft = "frameTick (video st)"
  have wf: "mmu_wf (mmu st)" and sub: "subscribers (mmu st) lyAddr = None" and nn: "0 \<le> ?ft"
    using inv by (simp_all add: vc_inv_def)
  have f: "?ft \<noteq> 0" "?ft < 65664" "?ft mod 456 \<noteq> 0" "?ft mod 456 \<noteq> 80" "?ft mod 456 \<noteq> 172"
    using q by (auto simp: vcSpecial_def)
  show ?thesis
    using f nn sub wf
    by (simp add: vcStep_def Let_def video_defs sdiv_nonneg smod_nonneg ly_write_eq)
qed

lemma vcStep_quiet_post:
  assumes inv: "vc_inv st" and q: "\<not> vcSpecial (frameTick (video st))"
  shows "\<exists>st'. vcStep st = Inr st' \<and> vc_post st st'"
proof -
  let ?ft = "frameTick (video st)"
  have f: "?ft \<noteq> 0" "?ft < 65664" "?ft mod 456 \<noteq> 172" "?ft mod 456 \<noteq> 80"
    using q by (auto simp: vcSpecial_def)
  have g: "80 < ?ft + 1 \<Longrightarrow> 80 < ?ft" using f(4) by (cases "?ft = 80") auto
  show ?thesis
    unfolding vcStep_quiet[OF inv q]
    using inv q f g
    by (simp add: vc_post_def vc_inv_def mmu_wf_def Let_def video_defs)
qed

lemma vcStep_pos0_post:
  assumes inv: "vc_inv st" and v: "frameTick (video st) < 65664"
    and p: "frameTick (video st) mod 456 = 0"
  shows "\<exists>st'. vcStep st = Inr st' \<and> vc_post st st'"
proof -
  let ?ft = "frameTick (video st)"
  have wf: "mmu_wf (mmu st)" and sub: "subscribers (mmu st) lyAddr = None" and nn: "0 \<le> ?ft"
    using inv by (simp_all add: vc_inv_def)
  have sp: "vcSpecial ?ft" using p by (simp add: vcSpecial_def)
  have g: "\<not> 80 < ?ft + 1 \<or> 80 < ?ft" using p by (cases "?ft = 80") auto
  show ?thesis
  proof (cases "?ft = 0")
    case True
    show ?thesis
      using True inv sp wf sub
      by (simp add: vcStep_def Let_def video_defs sdiv_nonneg smod_nonneg ly_write_eq
          setMode_eq loadBGPalette_eq io_reads loadLCDC_def vc_post_def vc_inv_def mmu_wf_def
          drawnPoints_append asSigned_def)
  next
    case False
    show ?thesis
      using False inv sp wf sub p v nn g
      by (simp add: vcStep_def Let_def video_defs sdiv_nonneg smod_nonneg ly_write_eq
          setMode_eq loadBGPalette_eq io_reads vc_post_def vc_inv_def mmu_wf_def
          asSigned_def)
  qed
qed

lemma vcStep_pos80_post:
  assumes inv: "vc_inv st" and v: "frameTick (video st) < 65664"
    and p: "frameTick (video st) mod 456 = 80"
  shows "\<exists>st'. vcStep st = Inr st' \<and> vc_post st st'"
proof -
  let ?ft = "frameTick (video st)"
  have wf: "mmu_wf (mmu st)" and sub: "subscribers (mmu st) lyAddr = None" and nn: "0 \<le> ?ft"
    using inv by (simp_all add: vc_inv_def)
  have pos: "0 < ?ft" using p by (cases "?ft = 0") (use nn in auto)
  have tab: "windowBGTileDataTableAddr (lcdc (video st)) = tileDataTable0
          \<or> windowBGTileDataTableAddr (lcdc (video st)) = tileDataTable1"
    using inv pos by (simp add: vc_inv_def)
  have sp: "vcSpecial ?ft" using p by (simp add: vcSpecial_def)
  let ?st3 = "st\<lparr>mmu := (mmu st)\<lparr>ioRAM := (ioRAM (mmu st))
      [0x44 := word_of_int (?ft div 456), 0x41 := (ioRAM (mmu st) ! 0x41 AND 0xFC) OR vcMode3]\<rparr>\<rparr>"
  have wf3: "mmu_wf (mmu ?st3)" using wf by (simp add: mmu_wf_def)
  obtain tm where tm: "loadBGTiles ?st3 = Inr tm" "tiles_ok tm"
    using loadBGTiles_total[OF wf3] tab by auto
  have step: "vcStep st = Inr (?st3\<lparr>video := (video st)\<lparr>tiles := tm, frameTick := ?ft + 1\<rparr>\<rparr>)"
    using pos p v nn sub wf tm(1)
    by (simp add: vcStep_def Let_def video_defs sdiv_nonneg smod_nonneg ly_write_eq
          setMode_eq mmu_wf_def)
  show ?thesis
    unfolding step using inv sp wf pos p v tab tm(2)
    by (simp add: vc_post_def vc_inv_def mmu_wf_def Let_def video_defs)
qed

lemma vcStep_pos172_post:
  assumes inv: "vc_inv st" and v: "frameTick (video st) < 65664"
    and p: "frameTick (video st) mod 456 = 172"
  shows "\<exists>st'. vcStep st = Inr st' \<and> vc_post st st'"
proof -
  let ?ft = "frameTick (video st)"
  have wf: "mmu_wf (mmu st)" and sub: "subscribers (mmu st) lyAddr = None" and nn: "0 \<le> ?ft"
    using inv by (simp_all add: vc_inv_def)
  have big: "80 < ?ft"
  proof (rule ccontr)
    assume "\<not> 80 < ?ft"
    then have "?ft mod 456 = ?ft" using nn by (intro mod_pos_pos_trivial) auto
    then show False using p \<open>\<not> 80 < ?ft\<close> by simp
  qed
  have tab: "windowBGTileDataTableAddr (lcdc (video st)) = tileDataTable0
          \<or> windowBGTileDataTableAddr (lcdc (video st)) = tileDataTable1"
    and tok: "tiles_ok (tiles (video st))"
    using inv big by (simp_all add: vc_inv_def)
  have sp: "vcSpecial ?ft" using p by (simp add: vcSpecial_def)
  let ?st3 = "st\<lparr>mmu := (mmu st)\<lparr>ioRAM := (ioRAM (mmu st))
      [0x44 := word_of_int (?ft div 456), 0x41 := (ioRAM (mmu st) ! 0x41 AND 0xFC) OR vcMode0]\<rparr>\<rparr>"
  have wf3: "mmu_wf (mmu ?st3)" using wf by (simp add: mmu_wf_def)
  have tok3: "tiles_ok (tiles (video ?st3))" using tok by simp
  have ln: "0 \<le> ?ft div 456" using nn by simp
  obtain ds where ds: "drawScanLine ?st3 (?ft div 456) =
       Inr (?st3\<lparr>video := (video ?st3)\<lparr>renderer := renderer (video ?st3) @ ds\<rparr>\<rparr>)"
     "drawnPoints ds = map (\<lambda>x. (int x, ?ft div 456)) [0..<160]"
    using drawScanLine_eq[OF wf3 tok3 ln] by blast
  have step: "vcStep st = Inr (?st3\<lparr>video := (video st)\<lparr>renderer := renderer (video st) @ ds,
       frameTick := ?ft + 1\<rparr>\<rparr>)"
    using big p v nn sub wf ds(1)
    by (simp add: vcStep_def Let_def video_defs sdiv_nonneg smod_nonneg ly_write_eq
          setMode_eq mmu_wf_def)
  show ?thesis
    unfolding step using inv sp wf big p v tab tok ds(2)
    by (simp add: vc_post_def vc_inv_def mmu_wf_def Let_def video_defs drawnPoints_append)
qed

lemma vcStep_vblank_post:
  assumes inv: "vc_inv st" and v: "\<not> frameTick (video st) < 65664"
  shows "\<exists>st'. vcStep st = Inr st' \<and> vc_post st st'"
proof -
  let ?ft = "frameTick (video st)"
  have wf: "mmu_wf (mmu st)" and sub: "subscribers (mmu st) lyAddr = None"
    and subf: "subscribers (mmu st) ifAddr = None" and nn: "0 \<le> ?ft"
    and lt: "?ft < 70224"
    using inv by (simp_all add: vc_inv_def video_defs)
  have big: "80 < ?ft" "0 < ?ft" "?ft \<noteq> 0" using v by auto
  have tab: "windowBGTileDataTableAddr (lcdc (video st)) = tileDataTable0
          \<or> windowBGTileDataTableAddr (lcdc (video st)) = tileDataTable1"
    and tok: "tiles_ok (tiles (video st))"
    using inv big by (simp_all add: vc_inv_def)
  have sp: "vcSpecial ?ft" using v by (simp add: vcSpecial_def)
  show ?thesis
    using inv sp wf big v tab tok sub subf nn lt
    by (simp add: vcStep_def Let_def video_defs sdiv_nonneg smod_nonneg ly_write_eq
          setMode_eq if_write_eq io_reads vc_post_def vc_inv_def mmu_wf_def
          drawnPoints_append)
qed

lemma vcStep_post:
  assumes "vc_inv st"
  shows "\<exists>st'. vcStep st = Inr st' \<and> vc_post st st'"
proof (cases "vcSpecial (frameTick (video st))")
  case False
  then show ?thesis by (rule vcStep_quiet_post[OF assms])
next
  case True
  then consider "\<not> frameTick (video st) < 65664"
    | "frameTick (video st) < 65664" "frameTick (video st) mod 456 = 0"
    | "frameTick (video st) < 65664" "frameTick (video st) mod 456 = 80"
    | "frameTick (video st) < 65664" "frameTick (video st) mod 456 = 172"
    unfolding vcSpecial_def by blast
  then show ?thesis
  proof cases
    case 1 then show ?thesis by (rule vcStep_vblank_post[OF assms])
  next
    case 2 then show ?thesis by (rule vcStep_pos0_post[OF assms])
  next
    case 3 then show ?thesis by (rule vcStep_pos80_post[OF assms])
  next
    case 4 then show ?thesis by (rule vcStep_pos172_post[OF assms])
  qed
qed

subsection \<open>The loop and the tick\<close>

lemma vcLoop_add: "vcLoop (a + b) st = bindE (vcLoop a st) (vcLoop b)"
proof (induction a arbitrary: st)
  case 0
  then show ?case by simp
next
  case (Suc a)
  show ?case by (cases "vcStep st") (simp_all add: Suc.IH)
qed

lemma vcLoop_post:
  assumes "vc_inv st" "frameTick (video st) + int n < 70224"
  shows "\<exists>st'. vcLoop n st = Inr st' \<and> vc_inv st'
     \<and> frameTick (video st') = frameTick (video st) + int n
     \<and> subscribers (mmu st') = subscribers (mmu st)
     \<and> interruptsEnabled st' = interruptsEnabled st
     \<and> ioRAM (mmu st') ! 0x40 = ioRAM (mmu st) ! 0x40
     \<and> (0 < n \<longrightarrow> ioRAM (mmu st') ! 0x44 = word_of_int ((frameTick (video st) + int n - 1) div 456))
     \<and> ((\<forall>t. frameTick (video st) \<le> t \<and> t < frameTick (video st) + int n \<longrightarrow> t mod 456 \<noteq> 172)
          \<longrightarrow> drawnPoints (renderer (video st')) = drawnPoints (renderer (video st)))"
  using assms
proof (induction n arbitrary: st)
  case 0
  then show ?case by simp
next
  case (Suc n)
  let ?ft = "frameTick (video st)"
  obtain st1 where s: "vcStep st = Inr st1" "vc_post st st1"
    using vcStep_post[OF Suc.prems(1)] by blast
  have ne: "?ft + 1 \<noteq> fullFrameClocks" using Suc.prems(2) by (simp add: video_defs)
  have p: "vc_inv st1" "frameTick (video st1) = ?ft + 1"
    "subscribers (mmu st1) = subscribers (mmu st)" "interruptsEnabled st1 = interruptsEnabled st"
    "ioRAM (mmu st1) ! 0x40 = ioRAM (mmu st) ! 0x40"
    "ioRAM (mmu st1) ! 0x44 = word_of_int (?ft div 456)"
    "?ft mod 456 \<noteq> 172 \<Longrightarrow> drawnPoints (renderer (video st1)) = drawnPoints (renderer (video st))"
    using s(2) ne by (simp_all add: vc_post_def Let_def)
  have b: "frameTick (video st1) + int n < 70224" using p(2) Suc.prems(2) by simp
  obtain st' where l: "vcLoop n st1 = Inr st'" "vc_inv st'"
    "frameTick (video st') = frameTick (video st1) + int n"
    "subscribers (mmu st') = subscribers (mmu st1)" "interruptsEnabled st' = interruptsEnabled st1"
    "ioRAM (mmu st') ! 0x40 = ioRAM (mmu st1) ! 0x40"
    "0 < n \<longrightarrow> ioRAM (mmu st') ! 0x44 = word_of_int ((frameTick (video st1) + int n - 1) div 456)"
    "(\<forall>t. frameTick (video st1) \<le> t \<and> t < frameTick (video st1) + int n \<longrightarrow> t mod 456 \<noteq> 172)
          \<longrightarrow> drawnPoints (renderer (video st')) = drawnPoints (renderer (video st1))"
    using Suc.IH[OF p(1) b] by blast
  have ly: "ioRAM (mmu st') ! 0x44 = word_of_int ((?ft + int (Suc n) - 1) div 456)"
  proof (cases "n = 0")
    case True
    then have "st' = st1" using l(1) by simp
    then show ?thesis using p(6) True by simp
  next
    case False
    then show ?thesis using l(7) p(2) by (simp add: algebra_simps)
  qed
  have dr: "drawnPoints (renderer (video st')) = drawnPoints (renderer (video st))"
    if h: "\<forall>t. ?ft \<le> t \<and> t < ?ft + int (Suc n) \<longrightarrow> t mod 456 \<noteq> 172"
  proof -
    have "?ft mod 456 \<noteq> 172" using h by simp
    moreover have "\<forall>t. frameTick (video st1) \<le> t \<and> t < frameTick (video st1) + int n \<longrightarrow> t mod 456 \<noteq> 172"
      using h p(2) by simp
    ultimately show ?thesis using l(8) p(7) by simp
  qed
  have "vcLoop (Suc n) st = Inr st'" using s(1) l(1) by simp
  then show ?case using l p ly dr by (simp add: algebra_simps)
qed

lemma vc_tick_on:
  assumes "mmu_wf (mmu st)" "ioRAM (mmu st) ! 0x40 AND 0x80 = 0x80"
  shows "vc_tick (int n) st = vcLoop n st"
  using assms io_reads(1)[OF assms(1)] by (simp add: vc_tick_def loadLCDC_def)

lemma vc_tick_off:
  assumes "at (mmu st) lcdcAddr = Inr b" "b AND 0x80 \<noteq> 0x80"
  shows "vc_tick n st = Inr st"
  using assms by (simp add: vc_tick_def loadLCDC_def)

lemma lcd_run:
  assumes "vc_inv st" "ioRAM (mmu st) ! 0x40 AND 0x80 = 0x80"
    "frameTick (video st) + int n < 70224"
  shows "\<exists>st'. vc_tick (int n) st = Inr st' \<and> vc_inv st'
     \<and> frameTick (video st') = frameTick (video st) + int n
     \<and> subscribers (mmu st') = subscribers (mmu st)
     \<and> interruptsEnabled st' = interruptsEnabled st
     \<and> ioRAM (mmu st') ! 0x40 = ioRAM (mmu st) ! 0x40
     \<and> (0 < n \<longrightarrow> ioRAM (mmu st') ! 0x44 = word_of_int ((frameTick (video st) + int n - 1) div 456))
     \<and> ((\<forall>t. frameTick (video st) \<le> t \<and> t < frameTick (video st) + int n \<longrightarrow> t mod 456 \<noteq> 172)
          \<longrightarrow> drawnPoints (renderer (video st')) = drawnPoints (renderer (video st)))"
proof -
  have wf: "mmu_wf (mmu st)" using assms(1) by (simp add: vc_inv_def)
  show ?thesis
    unfolding vc_tick_on[OF wf assms(2)] by (rule vcLoop_post[OF assms(1,3)])
qed

lemma lcd_step:
  assumes "vc_inv st" "ioRAM (mmu st) ! 0x40 AND 0x80 = 0x80"
  shows "\<exists>st'. vc_tick 1 st = Inr st' \<and> vc_post st st'"
proof -
  have wf: "mmu_wf (mmu st)" using assms(1) by (simp add: vc_inv_def)
  have "vc_tick (int 1) st = vcLoop 1 st" by (rule vc_tick_on[OF wf assms(2)])
  moreover obtain st' where "vcStep st = Inr st'" "vc_post st st'"
    using vcStep_post[OF assms(1)] by blast
  ultimately show ?thesis by simp
qed

lemma lcd_off_noop:
  assumes "at (mmu st) lcdcAddr = Inr b" "b AND 0x80 \<noteq> 0x80"
  shows "vc_tick n st = Inr st"
  using assms by (rule vc_tick_off)

lemma stat_write:
  assumes "vc_inv st" "subscribers (mmu st) statAddr = None"
  shows "\<exists>st'. cpuWrite statAddr w st = Inr st' \<and> vc_inv st'
     \<and> video st' = video st \<and> subscribers (mmu st') = subscribers (mmu st)
     \<and> ioRAM (mmu st') ! 0x40 = ioRAM (mmu st) ! 0x40 \<and> ioRAM (mmu st') ! 0x41 = w"
proof -
  have wf: "mmu_wf (mmu st)" using assms(1) by (simp add: vc_inv_def)
  show ?thesis
    using io_nosub_write[OF wf io_regs(7) assms(2), of w] assms(1) wf
    by (simp add: cpuWrite_def io_offsets vc_inv_def mmu_wf_def)
qed

lemma sinkAndMode_eq:
  assumes "vc_inv st"
  shows "sinkAndMode st = Inr (drawnPoints (renderer (video st)), ioRAM (mmu st) ! 0x41 AND 0x03)"
proof -
  have wf: "mmu_wf (mmu st)" using assms(1) by (simp add: vc_inv_def)
  show ?thesis by (simp add: sinkAndMode_def io_reads(2)[OF wf])
qed

section \<open>The machine after power-on\<close>

lemma powerOn_eq: "powerOn = Inr bootState"
proof -
  have "powerOn = Inr bootState"
    unfolding powerOn_def bootState_def newMachine_def newMMU_def newTimers_def
    apply (simp add: addr_defs subscribeTo_def timers_tick_def at_def area_defs idx_def
        parseTAC_def)
    apply (simp add: timerLoop_numeral timerCycle_def Let_def timaBitOf_def)
    apply (simp add: storeSilent_def setNoNotify_def area_defs addr_defs upd_def
        replicate_update_same)
    done
  then show ?thesis .
qed

lemma bootState_wf: "mmu_wf (mmu bootState)"
  by (simp add: bootState_def mmu_wf_def)

lemma boot_subs:
  "subscribers (mmu bootState) dmaAddr = Some OnDMAWrite"
  "subscribers (mmu bootState) tacAddr = Some OnTACWrite"
  "subscribers (mmu bootState) dividerAddr = Some OnDividerWrite"
  by (simp_all add: bootState_def addr_defs)

lemma boot_nosubs:
  "subscribers (mmu bootState) lcdcAddr = None" "subscribers (mmu bootState) statAddr = None"
  "subscribers (mmu bootState) lyAddr = None" "subscribers (mmu bootState) ifAddr = None"
  by (simp_all add: bootState_def addr_defs)

lemma boot_dma_idle: "\<not> dmaActive (mmu bootState)"
  by (simp add: bootState_def)

lemma boot_dma_write:
  "mmu_set bootState dmaAddr v =
     Inr (bootState\<lparr>mmu := (mmu bootState)\<lparr>dmaActive := True, dmaCursor := push_bit 8 (ucast v),
        dmaCycleCount := 0, ioRAM := (ioRAM (mmu bootState))[0x46 := v]\<rparr>\<rparr>)"
proof -
  let ?m1 = "(mmu bootState)\<lparr>dmaActive := True, dmaCursor := push_bit 8 (ucast v), dmaCycleCount := 0\<rparr>"
  have wf1: "mmu_wf ?m1" using bootState_wf by (simp add: mmu_wf_def)
  have "unat (dmaAddr - ioAddr) = 0x46" by (simp add: addr_defs)
  then have "setNoNotify ?m1 dmaAddr v = Inr (?m1\<lparr>ioRAM := (ioRAM ?m1)[0x46 := v]\<rparr>)"
    using io_write[OF io_regs(11) wf1, of v] by simp
  then show ?thesis
    using boot_subs(1) boot_dma_idle by (simp add: mmu_set_def onWrite_def onDMAWrite_def)
qed

lemma dmaBusy_reached: "mmu_set bootState dmaAddr 0xC1 = Inr dmaBusyState"
  by (simp add: boot_dma_write dmaBusyState_def)

lemma dmaBusy_facts:
  "subscribers (mmu dmaBusyState) dmaAddr = Some OnDMAWrite" "dmaActive (mmu dmaBusyState)"
  using boot_subs(1) by (simp_all add: dmaBusyState_def)

lemma boot_tac_write:
  "mmu_set bootState tacAddr v =
     Inr (bootState\<lparr>mmu := (mmu bootState)\<lparr>ioRAM := (ioRAM (mmu bootState))[7 := 0xF8 OR (v AND 0x07)]\<rparr>\<rparr>)"
proof -
  have "unat (tacAddr - ioAddr) = 7" by (simp add: addr_defs)
  then have "setNoNotify (mmu bootState) tacAddr w = Inr ((mmu bootState)\<lparr>ioRAM := (ioRAM (mmu bootState))[7 := w]\<rparr>)" for w
    using io_write[OF io_regs(4) bootState_wf, of w] by simp
  then show ?thesis
    using boot_subs(2) by (simp add: mmu_set_def onWrite_def onTACWrite_def)
qed

lemma boot_hram_write:
  "mmu_set bootState 0xFF80 v =
     Inr (bootState\<lparr>mmu := (mmu bootState)\<lparr>hram := (hram (mmu bootState))[0 := v]\<rparr>\<rparr>)"
  by (simp add: mmu_set_def bootState_def addr_defs setNoNotify_def area_defs upd_def)

lemma boot_rom_write:
  "mmu_set bootState 0x0000 0x01 =
     Inr (bootState\<lparr>mmu := (mmu bootState)\<lparr>mbc := mbcSet plainMBC 0x0000 0x01\<rparr>\<rparr>)"
  by (simp add: mmu_set_def bootState_def addr_defs setNoNotify_def area_defs)

lemma boot_rom_read: "at ((mmu bootState)\<lparr>mbc := c\<rparr>) 0x0000 = Inr 0x00"
proof -
  have "inBank0ROMArea 0x0000" by (simp add: area_defs addr_defs)
  moreover have "bank0ROM (mmu bootState) ! 0 = 0"
    unfolding bootState_def by simp
  moreover have "length (bank0ROM (mmu bootState)) = 0x4000"
    using bootState_wf by (simp add: mmu_wf_def)
  ultimately show ?thesis by (simp add: at_def idx_def addr_defs)
qed

lemma timerEdge_facts:
  "mmu_wf (mmu timerEdgeState)"
  "at (mmu timerEdgeState) tmaAddr = Inr 0x42"
  "at (mmu timerEdgeState) ieAddr = Inr 0x04"
  "at (mmu timerEdgeState) ifAddr = Inr 0x00"
  "at (mmu timerEdgeState) tacAddr = Inr 0x05"
  by (simp_all add: timerEdgeState_def bootState_def mmu_wf_def at_def area_defs addr_defs idx_def)

lemma lcdOn_reached: "cpuWrite lcdcAddr 0x80 bootState = Inr lcdOnState"
  using io_nosub_write[OF bootState_wf io_regs(6) boot_nosubs(1), of "0x80"]
  by (simp add: cpuWrite_def lcdOnState_def io_offsets)

lemma lcdOn_facts:
  "vc_inv lcdOnState" "ioRAM (mmu lcdOnState) ! 0x40 AND 0x80 = 0x80"
  "frameTick (video lcdOnState) = 0" "drawnPoints (renderer (video lcdOnState)) = []"
  "subscribers (mmu lcdOnState) = subscribers (mmu bootState)"
  using boot_nosubs
  by (simp_all add: lcdOnState_def vc_inv_def mmu_wf_def bootState_def newVideoController_def
      video_defs)

lemma at_position_172:
  "\<exists>st. runFrom powerOn [cpuWrite lcdcAddr 0x80, vc_tick 172, cpuWrite statAddr 0x03] = Inr st
     \<and> vc_inv st \<and> frameTick (video st) = 172 \<and> drawnPoints (renderer (video st)) = []
     \<and> ioRAM (mmu st) ! 0x40 AND 0x80 = 0x80 \<and> ioRAM (mmu st) ! 0x41 = 0x03"
proof -
  have q: "\<forall>t. frameTick (video lcdOnState) \<le> t \<and> t < frameTick (video lcdOnState) + int 172
             \<longrightarrow> t mod 456 \<noteq> 172"
    using lcdOn_facts(3) by (auto simp: small_mod)
  obtain s2 where s2: "vc_tick (int 172) lcdOnState = Inr s2" "vc_inv s2"
      "frameTick (video s2) = 172" "subscribers (mmu s2) = subscribers (mmu lcdOnState)"
      "ioRAM (mmu s2) ! 0x40 = ioRAM (mmu lcdOnState) ! 0x40"
      "drawnPoints (renderer (video s2)) = drawnPoints (renderer (video lcdOnState))"
    using lcd_run[OF lcdOn_facts(1,2), of 172] q lcdOn_facts(3) by auto
  have ns: "subscribers (mmu s2) statAddr = None"
    using s2(4) lcdOn_facts(5) boot_nosubs(2) by simp
  obtain s3 where s3: "cpuWrite statAddr 0x03 s2 = Inr s3" "vc_inv s3" "video s3 = video s2"
      "ioRAM (mmu s3) ! 0x40 = ioRAM (mmu s2) ! 0x40" "ioRAM (mmu s3) ! 0x41 = 0x03"
    using stat_write[OF s2(2) ns, of "0x03"] by blast
  have t: "vc_tick 172 lcdOnState = Inr s2" using s2(1) by simp
  have "runFrom powerOn [cpuWrite lcdcAddr 0x80, vc_tick 172, cpuWrite statAddr 0x03] = Inr s3"
    by (simp only: runFrom_def powerOn_eq bindE_Inr runAll.simps lcdOn_reached t s3(1))
  then show ?thesis
    using s2 s3 lcdOn_facts by simp
qed

lemma at_position_252:
  "\<exists>st. runFrom powerOn [cpuWrite lcdcAddr 0x80, vc_tick 252, cpuWrite statAddr 0x03] = Inr st
     \<and> vc_inv st \<and> frameTick (video st) = 252
     \<and> drawnPoints (renderer (video st)) = scanLinePoints 0
     \<and> ioRAM (mmu st) ! 0x40 AND 0x80 = 0x80 \<and> ioRAM (mmu st) ! 0x41 = 0x03"
proof -
  have wf0: "mmu_wf (mmu lcdOnState)" using lcdOn_facts(1) by (simp add: vc_inv_def)
  have q: "\<forall>t. frameTick (video lcdOnState) \<le> t \<and> t < frameTick (video lcdOnState) + int 172
             \<longrightarrow> t mod 456 \<noteq> 172"
    using lcdOn_facts(3) by (auto simp: small_mod)
  obtain s2 where s2: "vcLoop 172 lcdOnState = Inr s2" "vc_inv s2"
      "frameTick (video s2) = 172" "subscribers (mmu s2) = subscribers (mmu lcdOnState)"
      "ioRAM (mmu s2) ! 0x40 = ioRAM (mmu lcdOnState) ! 0x40"
      "drawnPoints (renderer (video s2)) = drawnPoints (renderer (video lcdOnState))"
    using vcLoop_post[OF lcdOn_facts(1), of 172] q lcdOn_facts(3) by auto
  obtain s2a where s2a: "vcStep s2 = Inr s2a" "vc_post s2 s2a"
    using vcStep_post[OF s2(2)] by blast
  have a: "vc_inv s2a" "frameTick (video s2a) = 173"
    "subscribers (mmu s2a) = subscribers (mmu s2)"
    "ioRAM (mmu s2a) ! 0x40 = ioRAM (mmu s2) ! 0x40"
    "drawnPoints (renderer (video s2a)) = scanLinePoints 0"
    using s2a(2) s2(3,6) lcdOn_facts(4)
    by (simp_all add: vc_post_def Let_def video_defs scanLinePoints_def)
  have q2: "\<forall>t. frameTick (video s2a) \<le> t \<and> t < frameTick (video s2a) + int 79
             \<longrightarrow> t mod 456 \<noteq> 172"
    using a(2) by (auto simp: small_mod)
  obtain s2b where s2b: "vcLoop 79 s2a = Inr s2b" "vc_inv s2b"
      "frameTick (video s2b) = 252" "subscribers (mmu s2b) = subscribers (mmu s2a)"
      "ioRAM (mmu s2b) ! 0x40 = ioRAM (mmu s2a) ! 0x40"
      "drawnPoints (renderer (video s2b)) = drawnPoints (renderer (video s2a))"
    using vcLoop_post[OF a(1), of 79] q2 a(2) by auto
  have "vcLoop (172 + (1 + 79)) lcdOnState = Inr s2b"
    unfolding vcLoop_add using s2(1) s2a(1) s2b(1) by simp
  then have "vcLoop 252 lcdOnState = Inr s2b" by simp
  then have "vc_tick (int 252) lcdOnState = Inr s2b"
    using vc_tick_on[OF wf0 lcdOn_facts(2), of 252] by simp
  then have t: "vc_tick 252 lcdOnState = Inr s2b" by simp
  have ns: "subscribers (mmu s2b) statAddr = None"
    using s2b(4) a(3) s2(4) lcdOn_facts(5) boot_nosubs(2) by simp
  obtain s3 where s3: "cpuWrite statAddr 0x03 s2b = Inr s3" "vc_inv s3" "video s3 = video s2b"
      "ioRAM (mmu s3) ! 0x40 = ioRAM (mmu s2b) ! 0x40" "ioRAM (mmu s3) ! 0x41 = 0x03"
    using stat_write[OF s2b(2) ns, of "0x03"] by blast
  have "runFrom powerOn [cpuWrite lcdcAddr 0x80, vc_tick 252, cpuWrite statAddr 0x03] = Inr s3"
    by (simp only: runFrom_def powerOn_eq bindE_Inr runAll.simps lcdOn_reached t s3(1))
  then show ?thesis
    using s2 a s2b s3 lcdOn_facts by simp
qed

lemma dmaSource_reached:
  "runAll [cpuWrite 0x809E 0x9E, cpuWrite 0x809F 0x9F] bootState = Inr dmaSourceState"
proof -
  let ?s1 = "bootState\<lparr>mmu := (mmu bootState)\<lparr>videoRAM := (videoRAM (mmu bootState))[0x9E := 0x9E]\<rparr>\<rparr>"
  have a1: "inVideoRAMArea 0x809E" and a2: "inVideoRAMArea 0x809F"
    by (simp_all add: area_defs addr_defs)
  have n1: "subscribers (mmu bootState) 0x809E = None" and n2: "subscribers (mmu ?s1) 0x809F = None"
    by (simp_all add: bootState_def addr_defs)
  have wf1: "mmu_wf (mmu ?s1)" using bootState_wf by (simp add: mmu_wf_def)
  have w1: "cpuWrite 0x809E 0x9E bootState = Inr ?s1"
    using vram_write[OF bootState_wf a1 n1, of "0x9E"] by (simp add: cpuWrite_def addr_defs)
  have w2: "cpuWrite 0x809F 0x9F ?s1 = Inr dmaSourceState"
    using vram_write[OF wf1 a2 n2, of "0x9F"] by (simp add: cpuWrite_def addr_defs dmaSourceState_def)
  show ?thesis by (simp only: runAll.simps bindE_Inr w1 w2)
qed

section \<open>Claims about the memory map\<close>

text \<open>
  C9. For every 16-bit address the region predicates cover the address space, so
  neither the read dispatch \<open>at\<close> nor the silent-write dispatch \<open>setNoNotify\<close> reaches
  its default branch, the panic "Unexpected memory address".
\<close>

theorem C9_no_unexpected_address:
  "(inBank0ROMArea a \<or> inBankedROMArea a \<or> inVideoRAMArea a \<or> inRAMArea a
      \<or> inBankedRAMArea a \<or> inRAMMirrorArea a \<or> inOAMArea a \<or> inInvalidArea a
      \<or> inIOArea a \<or> inHRAMArea a)
   \<and> at m a \<noteq> Inl (UnexpectedAddress b)
   \<and> setNoNotify m a v \<noteq> Inl (UnexpectedAddress b)"
proof -
  have cover: "inBank0ROMArea a \<or> inBankedROMArea a \<or> inVideoRAMArea a \<or> inRAMArea a
      \<or> inBankedRAMArea a \<or> inRAMMirrorArea a \<or> inOAMArea a \<or> inInvalidArea a
      \<or> inIOArea a \<or> inHRAMArea a"
    by (rule area_cover)
  have rd: "at m a \<noteq> Inl (UnexpectedAddress b)"
    using cover unfolding at_def by (auto simp: idx_def)
  have wr: "setNoNotify m a v \<noteq> Inl (UnexpectedAddress b)"
    using cover unfolding setNoNotify_def by (auto simp: upd_def)
  from cover rd wr show ?thesis by blast
qed

theorem C9_no_unexpected_address_witness:
  "at (mmu bootState) 0xFFFF \<noteq> Inl (UnexpectedAddress 0xFFFF)
   \<and> setNoNotify (mmu bootState) 0xFFFF 0x1F \<noteq> Inl (UnexpectedAddress 0xFFFF)"
  using C9_no_unexpected_address [of "0xFFFF" "mmu bootState" "0xFFFF" "0x1F"] by blast

text \<open>
  C6, as stated: for every address and byte \<open>v\<close>, a read after \<open>write(addr, v)\<close> returns
  \<open>v\<close> or what the observer of \<open>addr\<close> returned for \<open>v\<close>. The source drops writes to the
  invalid area and reads \<open>0xFF\<close> there: after power-on, with no observer at \<open>0xFEA0\<close>,
  writing \<open>0x00\<close> to \<open>0xFEA0\<close> is followed by a read of \<open>0xFF\<close>. It hands writes to ROM
  addresses to the bank controller and reads bank 0 from its own copy of the cartridge:
  writing \<open>0x01\<close> to \<open>0x0000\<close> is followed by a read of the cartridge byte \<open>0x00\<close>.
\<close>

theorem C6_invalid_area_counterexample:
  "bindE (runFrom powerOn [cpuWrite 0xFEA0 0x00]) (readByte 0xFEA0) = Inr 0xFF
   \<and> subscribers (mmu bootState) 0xFEA0 = None
   \<and> bindE (runFrom powerOn [cpuWrite 0x0000 0x01]) (readByte 0x0000) = Inr 0x00
   \<and> subscribers (mmu bootState) 0x0000 = None"
proof -
  have a: "inInvalidArea 0xFEA0" by (simp add: area_defs addr_defs)
  have s: "subscribers (mmu bootState) 0xFEA0 = None" by (simp add: bootState_def addr_defs)
  have w: "cpuWrite 0xFEA0 0x00 bootState = Inr bootState"
    by (simp add: cpuWrite_def mmu_set_def s set_invalid[OF a])
  have r: "readByte 0xFEA0 bootState = Inr 0xFF"
    by (simp add: readByte_def at_invalid[OF a])
  have s0: "subscribers (mmu bootState) 0x0000 = None" by (simp add: bootState_def addr_defs)
  have w0: "cpuWrite 0x0000 0x01 bootState
      = Inr (bootState\<lparr>mmu := (mmu bootState)\<lparr>mbc := mbcSet plainMBC 0x0000 0x01\<rparr>\<rparr>)"
    unfolding cpuWrite_def by (rule boot_rom_write)
  have r0: "readByte 0x0000
      (bootState\<lparr>mmu := (mmu bootState)\<lparr>mbc := mbcSet plainMBC 0x0000 0x01\<rparr>\<rparr>) = Inr 0x00"
    using boot_rom_read[of "mbcSet plainMBC 0x0000 0x01"] by (simp add: readByte_def)
  show ?thesis
    by (simp only: runFrom_def powerOn_eq bindE_Inr runAll.simps w r s w0 r0 s0 simp_thms)
qed

text \<open>
  C6, amended: for every address in a buffer that the MMU owns (VRAM, OAM, the I/O
  registers, HRAM) and every byte \<open>v\<close>, from any state, when \<open>write(addr, v)\<close> returns
  then a read of \<open>addr\<close> returns \<open>v\<close> if no observer is registered for \<open>addr\<close>, and
  otherwise the value the observer returned for \<open>v\<close>.
\<close>

theorem C6_read_after_write_owned:
  assumes "ownedArea a" "mmu_set st a v = Inr st'"
  shows "(subscribers (mmu st) a = None \<longrightarrow> at (mmu st') a = Inr v)
     \<and> (\<forall>f v' st1. subscribers (mmu st) a = Some f \<and> onWrite f st a v = Inr (v', st1)
            \<longrightarrow> at (mmu st') a = Inr v')"
  using assms(2)
proof (cases rule: mmu_set_cases)
  case (none m')
  then show ?thesis using setNoNotify_read_back[OF assms(1) none(2)] by simp
next
  case (some f v' st1 m')
  then show ?thesis using setNoNotify_read_back[OF assms(1) some(3)] by simp
qed

theorem C6_read_after_write_owned_witness:
  "ownedArea tacAddr \<and> ownedArea 0xFF80
   \<and> subscribers (mmu bootState) tacAddr = Some OnTACWrite
   \<and> onWrite OnTACWrite bootState tacAddr 0x05 = Inr (0xFD, bootState)
   \<and> bindE (mmu_set bootState tacAddr 0x05) (readByte tacAddr) = Inr 0xFD
   \<and> subscribers (mmu bootState) 0xFF80 = None
   \<and> bindE (mmu_set bootState 0xFF80 0x2A) (readByte 0xFF80) = Inr 0x2A"
proof -
  have o1: "ownedArea tacAddr" using io_regs(4) by (simp add: ownedArea_def)
  have o2: "ownedArea 0xFF80" by (simp add: ownedArea_def area_defs addr_defs)
  have s2: "subscribers (mmu bootState) 0xFF80 = None" by (simp add: bootState_def addr_defs)
  have ob: "onWrite OnTACWrite bootState tacAddr 0x05 = Inr (0xFD, bootState)"
    by (simp add: onWrite_def onTACWrite_def)
  from C6_read_after_write_owned [OF o1 boot_tac_write [of "0x05"]] boot_subs(2) ob
  have r1: "bindE (mmu_set bootState tacAddr 0x05) (readByte tacAddr) = Inr 0xFD"
    by (simp add: boot_tac_write readByte_def)
  from C6_read_after_write_owned [OF o2 boot_hram_write [of "0x2A"]] s2
  have r2: "bindE (mmu_set bootState 0xFF80 0x2A) (readByte 0xFF80) = Inr 0x2A"
    by (simp add: boot_hram_write readByte_def)
  show ?thesis using o1 o2 boot_subs(2) ob r1 s2 r2 by simp
qed

section \<open>Claims about the DMA register\<close>

text \<open>
  C10. When no DMA transfer is active, writing any value \<open>V\<close> to the DMA register
  \<open>0xFF46\<close> stores \<open>V\<close> itself in the I/O byte (the observer returns its argument
  unchanged), so a read of \<open>0xFF46\<close> returns \<open>V\<close>; the write also arms the transfer
  with cursor \<open>V << 8\<close> and elapsed count 0.
\<close>

theorem C10_dma_write_idle:
  assumes "subscribers (mmu st) dmaAddr = Some OnDMAWrite" "mmu_wf (mmu st)"
    "\<not> dmaActive (mmu st)"
  shows "\<exists>st'. mmu_set st dmaAddr v = Inr st'
      \<and> onDMAWrite (mmu st) dmaAddr v =
          Inr (v, (mmu st)\<lparr>dmaActive := True, dmaCursor := push_bit 8 (ucast v),
                            dmaCycleCount := 0\<rparr>)
      \<and> at (mmu st') dmaAddr = Inr v
      \<and> dmaActive (mmu st') \<and> dmaCursor (mmu st') = push_bit 8 (ucast v)
      \<and> dmaCycleCount (mmu st') = 0"
proof -
  let ?m1 = "(mmu st)\<lparr>dmaActive := True, dmaCursor := push_bit 8 (ucast v), dmaCycleCount := 0\<rparr>"
  have obs: "onDMAWrite (mmu st) dmaAddr v = Inr (v, ?m1)"
    using assms(3) by (simp add: onDMAWrite_def)
  have wf1: "mmu_wf ?m1" using assms(2) by (simp add: mmu_wf_def)
  obtain m2 where st: "setNoNotify ?m1 dmaAddr v = Inr m2"
    using setNoNotify_total[OF wf1] by blast
  have rd: "at m2 dmaAddr = Inr v"
    using setNoNotify_read_back[OF _ st] io_regs by (simp add: ownedArea_def)
  have keep: "dmaActive m2" "dmaCursor m2 = push_bit 8 (ucast v)" "dmaCycleCount m2 = 0"
    using setNoNotify_keeps[OF st] by simp_all
  have "mmu_set st dmaAddr v = Inr (st\<lparr>mmu := m2\<rparr>)"
    using assms(1) obs st by (simp add: mmu_set_def onWrite_def)
  then show ?thesis using obs rd keep by simp
qed

theorem C10_dma_write_idle_witness:
  "subscribers (mmu bootState) dmaAddr = Some OnDMAWrite \<and> mmu_wf (mmu bootState)
   \<and> \<not> dmaActive (mmu bootState)
   \<and> (\<exists>st'. mmu_set bootState dmaAddr 0xC1 = Inr st' \<and> at (mmu st') dmaAddr = Inr 0xC1
         \<and> dmaActive (mmu st') \<and> dmaCursor (mmu st') = 0xC100 \<and> dmaCycleCount (mmu st') = 0)"
  using C10_dma_write_idle [OF boot_subs(1) bootState_wf boot_dma_idle, of "0xC1"]
    boot_subs(1) bootState_wf boot_dma_idle
  by auto

text \<open>
  C1. After a write of \<open>V\<close> to the DMA register, ticking the MMU copies the 160 bytes
  at \<open>[V<<8, (V<<8)+0xA0)\<close> to OAM, one per T-cycle, within 671 T-cycles. The loop of
  \<^verbatim>\<open>mmu.tick\<close> copies only while the low byte of the cursor is below \<open>0x9F\<close>: the bytes
  at the offsets \<open>0x00\<close> to \<open>0x9E\<close> are copied, one per tick (lemma \<open>tickLoop_copy\<close>),
  and the byte at offset \<open>0x9F\<close> never is (lemma \<open>tickLoop_props\<close>: no number of ticks
  changes \<open>oamRAM ! 0x9F\<close>). Evaluated at \<open>V = 0x80\<close> with \<open>0x9E\<close> stored at \<open>0x809E\<close> and
  \<open>0x9F\<close> at \<open>0x809F\<close>: after 671 ticks the source byte at \<open>0x809F\<close> still reads \<open>0x9F\<close>,
  OAM at \<open>0xFE9E\<close> reads \<open>0x9E\<close>, and OAM at \<open>0xFE9F\<close> reads \<open>0x00\<close>.
\<close>

theorem C1_dma_last_byte_not_copied:
  "bindE (runFrom powerOn [cpuWrite 0x809E 0x9E, cpuWrite 0x809F 0x9F, cpuWrite dmaAddr 0x80,
                           machine_mmu_tick 671]) (readByte 0x809F) = Inr 0x9F
   \<and> bindE (runFrom powerOn [cpuWrite 0x809E 0x9E, cpuWrite 0x809F 0x9F, cpuWrite dmaAddr 0x80,
                           machine_mmu_tick 671]) (readByte 0xFE9E) = Inr 0x9E
   \<and> bindE (runFrom powerOn [cpuWrite 0x809E 0x9E, cpuWrite 0x809F 0x9F, cpuWrite dmaAddr 0x80,
                           machine_mmu_tick 671]) (readByte 0xFE9F) = Inr 0x00"
proof -
  let ?st1 = "dmaSourceState"
  let ?st2 = "?st1\<lparr>mmu := (mmu ?st1)\<lparr>dmaActive := True, dmaCursor := push_bit 8 (ucast (0x80::byte)),
        dmaCycleCount := 0, ioRAM := (ioRAM (mmu ?st1))[0x46 := 0x80]\<rparr>\<rparr>"
  have wf1: "mmu_wf (mmu ?st1)" using bootState_wf by (simp add: mmu_wf_def dmaSourceState_def)
  have sub1: "subscribers (mmu ?st1) dmaAddr = Some OnDMAWrite"
    using boot_subs(1) by (simp add: dmaSourceState_def)
  have idle1: "\<not> dmaActive (mmu ?st1)" using boot_dma_idle by (simp add: dmaSourceState_def)
  have w2: "cpuWrite dmaAddr 0x80 ?st1 = Inr ?st2"
    unfolding cpuWrite_def by (rule dma_write_idle[OF sub1 wf1 idle1])
  have wf2: "mmu_wf (mmu ?st2)" using wf1 by (simp add: mmu_wf_def)
  have src: "\<forall>j<159. at (mmu ?st2) (push_bit 8 (ucast (0x80::byte)) + of_nat j)
                = Inr (videoRAM (mmu ?st2) ! j)"
    using vram_read[OF wf2] by simp
  obtain m3 where t: "tickLoop 671 (mmu ?st2) = Inr m3"
      "\<forall>j<min (0 + 671) 159. oamRAM m3 ! j = videoRAM (mmu ?st2) ! j"
    using tickLoop_copy[of "mmu ?st2" 0 671 "0x80" "\<lambda>j. videoRAM (mmu ?st2) ! j"] wf2 src
    by auto
  obtain m3' where t': "tickLoop 671 (mmu ?st2) = Inr m3'" "mmu_wf m3'"
      "oamRAM m3' ! 0x9F = oamRAM (mmu ?st2) ! 0x9F" "videoRAM m3' = videoRAM (mmu ?st2)"
    using tickLoop_props[OF wf2, of 671] by blast
  have same: "m3' = m3" using t(1) t'(1) by simp
  have len: "length (oamRAM m3) = 160" "length (videoRAM m3) = 8192"
    using t'(2) same by (simp_all add: mmu_wf_def)
  have v9f: "videoRAM m3 ! 0x9F = 0x9F"
    using t'(4) same by (simp add: dmaSourceState_def bootState_def)
  have o9e: "oamRAM m3 ! 0x9E = 0x9E"
    using t(2) by (simp add: dmaSourceState_def bootState_def)
  have o9f: "oamRAM m3 ! 0x9F = 0x00"
    using t'(3) same by (simp add: dmaSourceState_def bootState_def)
  have r3: "machine_mmu_tick 671 ?st2 = Inr (?st2\<lparr>mmu := m3\<rparr>)"
    unfolding machine_mmu_tick_def mmu_tick_def using t(1) by simp
  have run: "runFrom powerOn [cpuWrite 0x809E 0x9E, cpuWrite 0x809F 0x9F, cpuWrite dmaAddr 0x80,
                           machine_mmu_tick 671] = Inr (?st2\<lparr>mmu := m3\<rparr>)"
  proof -
    have e: "[cpuWrite 0x809E 0x9E, cpuWrite 0x809F 0x9F, cpuWrite dmaAddr 0x80, machine_mmu_tick 671]
        = [cpuWrite 0x809E 0x9E, cpuWrite 0x809F 0x9F] @ [cpuWrite dmaAddr 0x80, machine_mmu_tick 671]"
      by simp
    have "runAll [cpuWrite 0x809E 0x9E, cpuWrite 0x809F 0x9F, cpuWrite dmaAddr 0x80,
                 machine_mmu_tick 671] bootState
        = bindE (runAll [cpuWrite 0x809E 0x9E, cpuWrite 0x809F 0x9F] bootState)
                (runAll [cpuWrite dmaAddr 0x80, machine_mmu_tick 671])"
      unfolding e by (rule runAll_append)
    also have "\<dots> = runAll [cpuWrite dmaAddr 0x80, machine_mmu_tick 671] dmaSourceState"
      by (simp only: dmaSource_reached bindE_Inr)
    also have "\<dots> = Inr (?st2\<lparr>mmu := m3\<rparr>)"
      by (simp only: runAll.simps bindE_Inr w2 r3)
    finally show ?thesis by (simp only: runFrom_def powerOn_eq bindE_Inr)
  qed
  have a: "at m3 0x809F = Inr 0x9F" using v9f len
    by (simp add: at_def area_defs addr_defs idx_def)
  have b: "at m3 0xFE9E = Inr 0x9E" using o9e len
    by (simp add: at_def area_defs addr_defs idx_def)
  have c: "at m3 0xFE9F = Inr 0x00" using o9f len
    by (simp add: at_def area_defs addr_defs idx_def)
  show ?thesis unfolding run using a b c by (simp add: readByte_def)
qed

text \<open>
  C5, as stated: a write to the DMA register while a transfer is active is tolerated
  and restarts the transfer, and no runtime error escapes. The source does not do
  that: \<^verbatim>\<open>onDMAWrite\<close> panics when \<open>dmaActive\<close> is set. Two writes in a row after
  power-on end in the panic.
\<close>

theorem C5_second_dma_write_counterexample:
  "runFrom powerOn [cpuWrite dmaAddr 0xC1, cpuWrite dmaAddr 0xC2] = Inl (DMAAlreadyActive 0xC2)"
proof -
  let ?st1 = "bootState\<lparr>mmu := (mmu bootState)\<lparr>dmaActive := True, dmaCursor := push_bit 8 (ucast (0xC1::byte)),
        dmaCycleCount := 0, ioRAM := (ioRAM (mmu bootState))[0x46 := 0xC1]\<rparr>\<rparr>"
  have "mmu_set ?st1 dmaAddr 0xC2 = Inl (DMAAlreadyActive 0xC2)"
    by (rule dma_active_panic) (simp_all add: boot_subs)
  then show ?thesis
    by (simp add: runFrom_def powerOn_eq cpuWrite_def boot_dma_write)
qed

text \<open>
  C5, amended: while a DMA transfer is active, a write of any value \<open>V\<close> to the DMA
  register through \<^verbatim>\<open>mmu.set\<close> does not restart the transfer: the observer panics
  with "DMA transfer request ... when a transfer is already active", and the panic is
  what the caller gets; nothing is stored.
\<close>

theorem C5_dma_write_while_active_panics:
  assumes "subscribers (mmu st) dmaAddr = Some OnDMAWrite" "dmaActive (mmu st)"
  shows "mmu_set st dmaAddr v = Inl (DMAAlreadyActive v)"
  using assms by (rule dma_active_panic)

theorem C5_dma_write_while_active_panics_witness:
  "subscribers (mmu dmaBusyState) dmaAddr = Some OnDMAWrite \<and> dmaActive (mmu dmaBusyState)
   \<and> mmu_set dmaBusyState dmaAddr 0xC2 = Inl (DMAAlreadyActive 0xC2)"
  using C5_dma_write_while_active_panics [OF dmaBusy_facts, of "0xC2"] dmaBusy_facts by simp

section \<open>Claims about the timer control register\<close>

text \<open>
  C8. For every byte \<open>v\<close> written to TAC (\<open>0xFF07\<close>) through the MMU's write path, the
  byte stored, and returned by a read of \<open>0xFF07\<close>, is \<open>0xF8 | (v & 0x07)\<close>; it stays
  so across every later write, observed or silent, to another address. Writing
  \<open>0x00\<close>, \<open>0x05\<close> and \<open>0xFF\<close> makes reads return \<open>0xF8\<close>, \<open>0xFD\<close> and \<open>0xFF\<close>.
\<close>

theorem C8_tac_write:
  assumes "subscribers (mmu st) tacAddr = Some OnTACWrite" "mmu_wf (mmu st)"
  shows "\<exists>st'. mmu_set st tacAddr v = Inr st'
      \<and> at (mmu st') tacAddr = Inr (0xF8 OR (v AND 0x07))
      \<and> (\<forall>a w st''. a \<noteq> tacAddr
            \<and> (mmu_set st' a w = Inr st'' \<or> storeSilent st' a w = Inr st'')
            \<longrightarrow> at (mmu st'') tacAddr = Inr (0xF8 OR (v AND 0x07)))"
proof -
  let ?w = "0xF8 OR (v AND 0x07)"
  have obs: "onWrite OnTACWrite st tacAddr v = Inr (?w, st)"
    by (simp add: onWrite_def onTACWrite_def)
  obtain m' where st: "setNoNotify (mmu st) tacAddr ?w = Inr m'"
    using setNoNotify_total[OF assms(2)] by blast
  have wr: "mmu_set st tacAddr v = Inr (st\<lparr>mmu := m'\<rparr>)"
    using assms(1) obs st by (simp add: mmu_set_def)
  have rd: "at m' tacAddr = Inr ?w"
    using setNoNotify_read_back[OF _ st] io_regs by (simp add: ownedArea_def)
  have frame: "at (mmu st'') tacAddr = Inr ?w"
    if "a \<noteq> tacAddr" "mmu_set (st\<lparr>mmu := m'\<rparr>) a w = Inr st'' \<or> storeSilent (st\<lparr>mmu := m'\<rparr>) a w = Inr st''"
    for a w st''
    using that(2)
  proof
    assume "mmu_set (st\<lparr>mmu := m'\<rparr>) a w = Inr st''"
    from mmu_set_io_frame[OF this that(1) io_regs(4)] rd show ?thesis by simp
  next
    assume "storeSilent (st\<lparr>mmu := m'\<rparr>) a w = Inr st''"
    then obtain m2 where "setNoNotify m' a w = Inr m2" "st'' = st\<lparr>mmu := m2\<rparr>"
      by (auto simp: storeSilent_def bindE_eq_Inr)
    then show ?thesis using setNoNotify_io_frame[OF _ that(1) io_regs(4), of m' w m2] rd by simp
  qed
  show ?thesis using wr rd frame by auto
qed

theorem C8_tac_write_witness:
  "subscribers (mmu bootState) tacAddr = Some OnTACWrite \<and> mmu_wf (mmu bootState)
   \<and> bindE (cpuWrite tacAddr 0x00 bootState) (readByte tacAddr) = Inr 0xF8
   \<and> bindE (cpuWrite tacAddr 0x05 bootState) (readByte tacAddr) = Inr 0xFD
   \<and> bindE (cpuWrite tacAddr 0xFF bootState) (readByte tacAddr) = Inr 0xFF
   \<and> tmaAddr \<noteq> tacAddr
   \<and> bindE (runAll [cpuWrite tacAddr 0x05, cpuWrite tmaAddr 0x42] bootState) (readByte tacAddr)
       = Inr 0xFD"
proof -
  let ?s1 = "bootState\<lparr>mmu := (mmu bootState)\<lparr>ioRAM := (ioRAM (mmu bootState))[7 := 0xF8 OR (0x05 AND 0x07)]\<rparr>\<rparr>"
  have w1: "mmu_set bootState tacAddr 0x05 = Inr ?s1" by (rule boot_tac_write)
  have wf1: "mmu_wf (mmu ?s1)" using bootState_wf by (simp add: mmu_wf_def)
  have ns: "subscribers (mmu ?s1) tmaAddr = None" by (simp add: bootState_def addr_defs)
  obtain s2 where w2: "mmu_set ?s1 tmaAddr 0x42 = Inr s2"
    using io_nosub_write[OF wf1 io_regs(3) ns] by blast
  have ne: "tmaAddr \<noteq> tacAddr" by (simp add: addr_defs)
  from C8_tac_write [OF boot_subs(2) bootState_wf, of "0x05"] w1 w2 ne
  have later: "at (mmu s2) tacAddr = Inr 0xFD" by auto
  have run: "runAll [cpuWrite tacAddr 0x05, cpuWrite tmaAddr 0x42] bootState = Inr s2"
    by (simp only: runAll.simps bindE_Inr cpuWrite_def w1 w2)
  show ?thesis
    using C8_tac_write [OF boot_subs(2) bootState_wf, of "0x00"]
      C8_tac_write [OF boot_subs(2) bootState_wf, of "0x05"]
      C8_tac_write [OF boot_subs(2) bootState_wf, of "0xFF"]
      boot_subs(2) bootState_wf ne later run
    by (auto simp: cpuWrite_def readByte_def)
qed

section \<open>Claims about the timers\<close>

text \<open>
  C3. In every T-cycle of \<^verbatim>\<open>timers.tick\<close> (\<open>timerCycle\<close>, with the rate and the running
  flag parsed from the TAC byte read at the start of the tick), TIMA is incremented
  exactly when the signal (the TAC-selected bit of the clock AND the running flag) was
  1 in the previous cycle (\<open>timaDelay\<close>) and is 0 now; when the increment overflows
  TIMA from \<open>0xFF\<close>, TIMA is reloaded from TMA and IF bit 2 is raised if and only if the
  master interrupt flag and IE bit 2 are both set. In particular, with TAC = \<open>0x05\<close>,
  TIMA = \<open>0xFF\<close>, TMA = \<open>0x42\<close>, IE bit 2 set, the master flag set and IF = 0, a tick
  across a falling edge of bit 3 leaves TIMA = \<open>0x42\<close> (in the timer and in memory) and
  IF bit 2 set.
\<close>

theorem C3_timer_falling_edge:
  assumes wf: "mmu_wf (mmu st)"
    and rd: "at (mmu st) tmaAddr = Inr tma" "at (mmu st) ieAddr = Inr ie"
      "at (mmu st) ifAddr = Inr flags"
  shows "(\<exists>st'. timerCycle (fst (parseTAC tac)) (snd (parseTAC tac)) st = Inr st'
     \<and> cpuClock (timers st') = cpuClock (timers st) + 1
     \<and> timaDelay (timers st') = (if spec_signal tac (cpuClock (timers st) + 1) then 1 else 0)
     \<and> tima (timers st') =
         (if timaDelay (timers st) = 1 \<and> \<not> spec_signal tac (cpuClock (timers st) + 1)
          then (if tima (timers st) = 0xFF then tma else tima (timers st) + 1)
          else tima (timers st))
     \<and> at (mmu st') ifAddr =
         Inr (if timaDelay (timers st) = 1 \<and> \<not> spec_signal tac (cpuClock (timers st) + 1)
                 \<and> tima (timers st) = 0xFF \<and> interruptsEnabled st \<and> ie AND 0x04 = 0x04
              then flags OR 0x04 else flags))
   \<and> (at (mmu st) tacAddr = Inr tac \<and> tac AND 0x07 = 0x05 \<and> tima (timers st) = 0xFF
        \<and> tma = 0x42 \<and> ie AND 0x04 = 0x04 \<and> interruptsEnabled st \<and> flags = 0
        \<and> timaDelay (timers st) = 1 \<and> \<not> bit (cpuClock (timers st) + 1) 3
      \<longrightarrow> (\<exists>st'. timers_tick 1 st = Inr st' \<and> tima (timers st') = 0x42
             \<and> at (mmu st') timaAddr = Inr 0x42 \<and> at (mmu st') ifAddr = Inr 0x04))"
proof (intro conjI impI)
  show "\<exists>st'. timerCycle (fst (parseTAC tac)) (snd (parseTAC tac)) st = Inr st'
     \<and> cpuClock (timers st') = cpuClock (timers st) + 1
     \<and> timaDelay (timers st') = (if spec_signal tac (cpuClock (timers st) + 1) then 1 else 0)
     \<and> tima (timers st') =
         (if timaDelay (timers st) = 1 \<and> \<not> spec_signal tac (cpuClock (timers st) + 1)
          then (if tima (timers st) = 0xFF then tma else tima (timers st) + 1)
          else tima (timers st))
     \<and> at (mmu st') ifAddr =
         Inr (if timaDelay (timers st) = 1 \<and> \<not> spec_signal tac (cpuClock (timers st) + 1)
                 \<and> tima (timers st) = 0xFF \<and> interruptsEnabled st \<and> ie AND 0x04 = 0x04
              then flags OR 0x04 else flags)"
    using timerCycle_spec[OF wf rd, of tac] by blast
next
  assume h: "at (mmu st) tacAddr = Inr tac \<and> tac AND 0x07 = 0x05 \<and> tima (timers st) = 0xFF
        \<and> tma = 0x42 \<and> ie AND 0x04 = 0x04 \<and> interruptsEnabled st \<and> flags = 0
        \<and> timaDelay (timers st) = 1 \<and> \<not> bit (cpuClock (timers st) + 1) 3"
  then have tac: "parseTAC tac = (262144, True)"
    and sig: "\<not> spec_signal tac (cpuClock (timers st) + 1)"
    using tac_5[of tac] by simp_all
  obtain st1 where c: "timerCycle (fst (parseTAC tac)) (snd (parseTAC tac)) st = Inr st1"
      "tima (timers st1) = 0x42" "at (mmu st1) ifAddr = Inr 0x04" "mmu_wf (mmu st1)"
    using timerCycle_spec[OF wf rd, of tac] h sig by auto
  obtain st2 where d: "storeSilent st1 dividerAddr (ucast (drop_bit 8 (cpuClock (timers st1)))) = Inr st2"
      "at (mmu st2) ifAddr = Inr 0x04" "timers st2 = timers st1" "mmu_wf (mmu st2)"
    using io_store[OF c(4) io_regs(1), of "ucast (drop_bit 8 (cpuClock (timers st1)))"] c(3) io_regs(5)
    by (auto simp: addr_defs)
  obtain st3 where e: "storeSilent st2 timaAddr (tima (timers st2)) = Inr st3"
      "at (mmu st3) timaAddr = Inr (tima (timers st2))"
      "at (mmu st3) ifAddr = Inr 0x04" "timers st3 = timers st2"
    using io_store[OF d(4) io_regs(2), of "tima (timers st2)"] d(2) io_regs(5)
    by (auto simp: addr_defs)
  have "timers_tick 1 st = Inr st3"
    using h tac c(1) d(1) e(1) by (simp add: timers_tick_def)
  then show "\<exists>st'. timers_tick 1 st = Inr st' \<and> tima (timers st') = 0x42
             \<and> at (mmu st') timaAddr = Inr 0x42 \<and> at (mmu st') ifAddr = Inr 0x04"
    using c(2) d(3) e by simp
qed

theorem C3_timer_falling_edge_witness:
  "mmu_wf (mmu timerEdgeState) \<and> at (mmu timerEdgeState) tmaAddr = Inr 0x42
   \<and> at (mmu timerEdgeState) ieAddr = Inr 0x04 \<and> at (mmu timerEdgeState) ifAddr = Inr 0x00
   \<and> at (mmu timerEdgeState) tacAddr = Inr 0x05 \<and> tima (timers timerEdgeState) = 0xFF
   \<and> interruptsEnabled timerEdgeState \<and> timaDelay (timers timerEdgeState) = 1
   \<and> \<not> bit (cpuClock (timers timerEdgeState) + 1) 3
   \<and> (\<exists>st'. timerCycle 262144 True timerEdgeState = Inr st' \<and> cpuClock (timers st') = 16
         \<and> timaDelay (timers st') = 0 \<and> tima (timers st') = 0x42
         \<and> at (mmu st') ifAddr = Inr 0x04)
   \<and> (\<exists>st'. timers_tick 1 timerEdgeState = Inr st' \<and> tima (timers st') = 0x42
         \<and> at (mmu st') timaAddr = Inr 0x42 \<and> at (mmu st') ifAddr = Inr 0x04)"
proof -
  have p: "parseTAC 0x05 = (262144, True)" "\<not> spec_signal 0x05 16"
    using tac_5[of "0x05"] by simp_all
  have s: "tima (timers timerEdgeState) = 0xFF" "interruptsEnabled timerEdgeState"
    "timaDelay (timers timerEdgeState) = 1" "cpuClock (timers timerEdgeState) = 15"
    by (simp_all add: timerEdgeState_def)
  have b: "\<not> bit (cpuClock (timers timerEdgeState) + 1) 3"
    by (simp add: s)
  note t = C3_timer_falling_edge [OF timerEdge_facts(1,2,3,4), of "0x05"]
  show ?thesis
    using t timerEdge_facts p s b by simp
qed

section \<open>Claims about the video controller\<close>

text \<open>
  C7. For every \<open>x\<close> in \<open>[0,160)\<close> on line \<open>y\<close> the background pixel is fetched at
  \<open>bgX = (x + scrollX) mod 256\<close>, \<open>bgY = (y + scrollY) mod 256\<close> and tile index
  \<open>(bgY / 8) * 32 + (bgX / 8)\<close>. \<^verbatim>\<open>bgTileAt\<close> reads the scroll bytes as signed and wraps
  with \<open>bg > 256\<close> instead of \<open>bg \<ge> 256\<close>; it agrees with the spec except where the sum
  is exactly 256 (lemma \<open>bgWrap_agrees\<close>). Evaluated at SCX = \<open>0x7F\<close>, SCY = 0, \<open>x = 129\<close>,
  \<open>y = 0\<close>: the source computes \<open>bgX = 256\<close> and tile offset 32, the spec \<open>bgX = 0\<close> and
  tile index 0.
\<close>

theorem C7_bg_wrap_off_by_one:
  "bgWrap 129 (asSigned 0x7F) bgWidth = 256
   \<and> spec_bgCoord 129 0x7F = 0
   \<and> bgTileOffset (newVideoController\<lparr>scrollX := asSigned 0x7F, scrollY := asSigned 0x00\<rparr>) 129 0 = 32
   \<and> spec_tileIndex 0x7F 0x00 129 0 = 0"
  by (simp add: bgWrap_def bgTileOffset_def asSigned_def spec_bgCoord_def spec_tileIndex_def
      newVideoController_def video_defs signed_divide_int_def)

text \<open>
  C2. On a visible scanline the tick enters mode 0 (HBlank) and emits the scanline
  exactly at position 252 of the line (80 OAM clocks plus 172 VRAM clocks). The
  \<^verbatim>\<open>switch\<close> of the source tests \<open>scanLineVRAMClocks\<close> (172), not the sum, so the loop
  body does this at position 172 and does nothing at position 252. Evaluated after
  power-on with the LCD switched on, the CPU having set the mode bits of STAT to 3
  just before the tick in question: up to position 172 no point is drawn; the tick at
  position 172 draws the 160 points of line 0 and clears the mode bits; the tick at
  position 252 draws nothing and leaves the mode bits at 3.
\<close>

theorem C2_scanline_emitted_at_172_not_252:
  "bindE (runFrom powerOn [cpuWrite lcdcAddr 0x80, vc_tick 172, cpuWrite statAddr 0x03])
         sinkAndMode = Inr ([], 0x03)
   \<and> bindE (runFrom powerOn [cpuWrite lcdcAddr 0x80, vc_tick 172, cpuWrite statAddr 0x03, vc_tick 1])
         sinkAndMode = Inr (scanLinePoints 0, 0x00)
   \<and> bindE (runFrom powerOn [cpuWrite lcdcAddr 0x80, vc_tick 252, cpuWrite statAddr 0x03])
         sinkAndMode = Inr (scanLinePoints 0, 0x03)
   \<and> bindE (runFrom powerOn [cpuWrite lcdcAddr 0x80, vc_tick 252, cpuWrite statAddr 0x03, vc_tick 1])
         sinkAndMode = Inr (scanLinePoints 0, 0x03)"
proof -
  obtain a where a: "runFrom powerOn [cpuWrite lcdcAddr 0x80, vc_tick 172, cpuWrite statAddr 0x03] = Inr a"
      "vc_inv a" "frameTick (video a) = 172" "drawnPoints (renderer (video a)) = []"
      "ioRAM (mmu a) ! 0x40 AND 0x80 = 0x80" "ioRAM (mmu a) ! 0x41 = 0x03"
    using at_position_172 by blast
  obtain a' where a': "vc_tick 1 a = Inr a'" "vc_post a a'"
    using lcd_step[OF a(2,5)] by blast
  have pa: "vc_inv a'" "drawnPoints (renderer (video a')) = scanLinePoints 0"
    "ioRAM (mmu a') ! 0x41 = 0x00"
    using a'(2) a(3,4,6)
    by (simp_all add: vc_post_def Let_def video_defs scanLinePoints_def vcSpecial_def)
  obtain b where b: "runFrom powerOn [cpuWrite lcdcAddr 0x80, vc_tick 252, cpuWrite statAddr 0x03] = Inr b"
      "vc_inv b" "frameTick (video b) = 252" "drawnPoints (renderer (video b)) = scanLinePoints 0"
      "ioRAM (mmu b) ! 0x40 AND 0x80 = 0x80" "ioRAM (mmu b) ! 0x41 = 0x03"
    using at_position_252 by blast
  obtain b' where b': "vc_tick 1 b = Inr b'" "vc_post b b'"
    using lcd_step[OF b(2,5)] by blast
  have pb: "vc_inv b'" "drawnPoints (renderer (video b')) = scanLinePoints 0"
    "ioRAM (mmu b') ! 0x41 = 0x03"
    using b'(2) b(3,4,6)
    by (simp_all add: vc_post_def Let_def video_defs vcSpecial_def)
  have r1: "bindE (runFrom powerOn [cpuWrite lcdcAddr 0x80, vc_tick 172, cpuWrite statAddr 0x03])
         sinkAndMode = Inr ([], 0x03)"
    using a by (simp add: sinkAndMode_eq)
  have r2: "bindE (runFrom powerOn [cpuWrite lcdcAddr 0x80, vc_tick 172, cpuWrite statAddr 0x03, vc_tick 1])
         sinkAndMode = Inr (scanLinePoints 0, 0x00)"
    using runFrom_snoc[of powerOn "[cpuWrite lcdcAddr 0x80, vc_tick 172, cpuWrite statAddr 0x03]" "vc_tick 1"]
      a(1) a'(1) pa by (simp add: sinkAndMode_eq)
  have r3: "bindE (runFrom powerOn [cpuWrite lcdcAddr 0x80, vc_tick 252, cpuWrite statAddr 0x03])
         sinkAndMode = Inr (scanLinePoints 0, 0x03)"
    using b by (simp add: sinkAndMode_eq)
  have r4: "bindE (runFrom powerOn [cpuWrite lcdcAddr 0x80, vc_tick 252, cpuWrite statAddr 0x03, vc_tick 1])
         sinkAndMode = Inr (scanLinePoints 0, 0x03)"
    using runFrom_snoc[of powerOn "[cpuWrite lcdcAddr 0x80, vc_tick 252, cpuWrite statAddr 0x03]" "vc_tick 1"]
      b(1) b'(1) pb by (simp add: sinkAndMode_eq)
  show ?thesis using r1 r2 r3 r4 by blast
qed

text \<open>
  Two states in which the LCD is off and the registers are not at their power-on
  values: after a CPU write of 5 to LY with the LCD never switched on, and after 457
  cycles with the LCD on followed by a CPU write of 0 to LCDC.
\<close>

lemma lcdOff_reached:
  obtains s where
    "runFrom powerOn [cpuWrite lcdcAddr 0x80, vc_tick 457, cpuWrite lcdcAddr 0x00] = Inr s"
    "at (mmu s) lcdcAddr = Inr 0x00"
    "frameTickAndLY s = Inr (457, 0x01)"
proof -
  obtain s where s: "vc_tick (int 457) lcdOnState = Inr s" "vc_inv s"
      "frameTick (video s) = 457" "subscribers (mmu s) = subscribers (mmu lcdOnState)"
      "ioRAM (mmu s) ! 0x44 = word_of_int ((frameTick (video lcdOnState) + int 457 - 1) div 456)"
    using lcd_run[OF lcdOn_facts(1,2), of 457] lcdOn_facts(3) by auto
  have ly: "ioRAM (mmu s) ! 0x44 = 0x01" using s(5) lcdOn_facts(3) by simp
  have wf: "mmu_wf (mmu s)" using s(2) by (simp add: vc_inv_def)
  have ns: "subscribers (mmu s) lcdcAddr = None"
    using s(4) lcdOn_facts(5) boot_nosubs(1) by simp
  let ?s' = "s\<lparr>mmu := (mmu s)\<lparr>ioRAM := (ioRAM (mmu s))[0x40 := 0x00]\<rparr>\<rparr>"
  have w: "cpuWrite lcdcAddr 0x00 s = Inr ?s'"
    using io_nosub_write[OF wf io_regs(6) ns, of "0x00"] by (simp add: cpuWrite_def io_offsets)
  have wf': "mmu_wf (mmu ?s')" using wf by (simp add: mmu_wf_def)
  have len: "length (ioRAM (mmu s)) = 128" using wf by (simp add: mmu_wf_def)
  have lc: "at (mmu ?s') lcdcAddr = Inr 0x00"
    using io_reads(1)[OF wf'] len by simp
  have obs: "frameTickAndLY ?s' = Inr (457, 0x01)"
    using io_reads(5)[OF wf'] ly s(3) by (simp add: frameTickAndLY_def)
  have t: "vc_tick 457 lcdOnState = Inr s" using s(1) by simp
  have r1: "runFrom powerOn [cpuWrite lcdcAddr 0x80, vc_tick 457, cpuWrite lcdcAddr 0x00] = Inr ?s'"
    by (simp only: runFrom_def powerOn_eq bindE_Inr runAll.simps lcdOn_reached t w)
  show thesis by (rule that[OF r1 lc obs])
qed

lemma lyWritten_reached:
  obtains s where
    "runFrom powerOn [cpuWrite lyAddr 0x05] = Inr s"
    "at (mmu s) lcdcAddr = Inr 0x00"
    "frameTickAndLY s = Inr (0, 0x05)"
proof -
  let ?s = "bootState\<lparr>mmu := (mmu bootState)\<lparr>ioRAM := (ioRAM (mmu bootState))[0x44 := 0x05]\<rparr>\<rparr>"
  have w: "cpuWrite lyAddr 0x05 bootState = Inr ?s"
    using io_nosub_write[OF bootState_wf io_regs(10) boot_nosubs(3), of "0x05"]
    by (simp add: cpuWrite_def io_offsets)
  have wf: "mmu_wf (mmu bootState)" by (rule bootState_wf)
  have wf': "mmu_wf (mmu ?s)" using wf by (simp add: mmu_wf_def)
  have len: "length (ioRAM (mmu bootState)) = 128" using wf by (simp add: mmu_wf_def)
  have lc0: "at (mmu bootState) lcdcAddr = Inr 0x00"
    using io_reads(1)[OF bootState_wf] by (simp add: bootState_def)
  have lc: "at (mmu ?s) lcdcAddr = Inr 0x00"
    using io_reads(1)[OF wf'] io_reads(1)[OF wf] lc0 len by simp
  have ft: "frameTick (video bootState) = 0"
    by (simp add: bootState_def newVideoController_def)
  have obs: "frameTickAndLY ?s = Inr (0, 0x05)"
    using io_reads(5)[OF wf'] len ft by (simp add: frameTickAndLY_def)
  have r: "runFrom powerOn [cpuWrite lyAddr 0x05] = Inr ?s"
    by (simp only: runFrom_def powerOn_eq bindE_Inr runAll.simps w)
  show thesis by (rule that[OF r lc obs])
qed

text \<open>
  C4, as stated: whenever LCDC bit 7 is 0, a tick of the video controller changes
  nothing, \<open>frameTick\<close> stays at 0 and LY reads 0. Nothing in the source resets
  \<open>frameTick\<close> or LY when the LCD is switched off: after 457 ticks with the LCD on and
  a CPU write of 0 to LCDC, LCDC reads 0, and after a further tick of 100 cycles
  \<open>frameTick\<close> is 457 and LY reads 1.
\<close>

theorem C4_lcd_off_keeps_ly_counterexample:
  "bindE (runFrom powerOn [cpuWrite lcdcAddr 0x80, vc_tick 457, cpuWrite lcdcAddr 0x00])
         (readByte lcdcAddr) = Inr 0x00
   \<and> bindE (runFrom powerOn [cpuWrite lcdcAddr 0x80, vc_tick 457, cpuWrite lcdcAddr 0x00, vc_tick 100])
         frameTickAndLY = Inr (457, 0x01)"
proof -
  obtain s where s:
      "runFrom powerOn [cpuWrite lcdcAddr 0x80, vc_tick 457, cpuWrite lcdcAddr 0x00] = Inr s"
      "at (mmu s) lcdcAddr = Inr 0x00" "frameTickAndLY s = Inr (457, 0x01)"
    by (rule lcdOff_reached)
  have off: "vc_tick 100 s = Inr s"
    by (rule lcd_off_noop[OF s(2)]) simp
  have r2: "runFrom powerOn [cpuWrite lcdcAddr 0x80, vc_tick 457, cpuWrite lcdcAddr 0x00, vc_tick 100] = Inr s"
    using runFrom_snoc[of powerOn "[cpuWrite lcdcAddr 0x80, vc_tick 457, cpuWrite lcdcAddr 0x00]" "vc_tick 100"]
      s(1) off by simp
  show ?thesis
    unfolding r2 s(1) using s(2,3) by (simp add: readByte_def)
qed

text \<open>
  C4, amended: whenever LCDC bit 7 is 0, a call of the video controller's \<open>tick(n)\<close>,
  for any \<open>n\<close>, returns the state it was given: \<open>frameTick\<close> keeps the value it had
  and a read of LY returns what it returned before the call, whatever these values
  are.
\<close>

theorem C4_lcd_off_tick_is_noop:
  assumes "at (mmu st) lcdcAddr = Inr b" "b AND 0x80 \<noteq> 0x80"
  shows "vc_tick n st = Inr st
     \<and> bindE (vc_tick n st) frameTickAndLY = frameTickAndLY st"
  using lcd_off_noop[OF assms, of n] by simp

theorem C4_lcd_off_tick_is_noop_witness:
  "bindE (runFrom powerOn []) (readByte lcdcAddr) = Inr 0x00
   \<and> (0x00::byte) AND 0x80 \<noteq> 0x80
   \<and> bindE (runFrom powerOn []) (vc_tick 100) = runFrom powerOn []
   \<and> bindE (runFrom powerOn [vc_tick 100]) frameTickAndLY = Inr (0, 0x00)
   \<and> bindE (runFrom powerOn [cpuWrite lyAddr 0x05]) (readByte lcdcAddr) = Inr 0x00
   \<and> bindE (runFrom powerOn [cpuWrite lyAddr 0x05]) (vc_tick 100)
       = runFrom powerOn [cpuWrite lyAddr 0x05]
   \<and> bindE (runFrom powerOn [cpuWrite lyAddr 0x05]) frameTickAndLY = Inr (0, 0x05)
   \<and> bindE (runFrom powerOn [cpuWrite lyAddr 0x05, vc_tick 100]) frameTickAndLY = Inr (0, 0x05)
   \<and> bindE (runFrom powerOn [cpuWrite lcdcAddr 0x80, vc_tick 457, cpuWrite lcdcAddr 0x00])
        (readByte lcdcAddr) = Inr 0x00
   \<and> bindE (runFrom powerOn [cpuWrite lcdcAddr 0x80, vc_tick 457, cpuWrite lcdcAddr 0x00])
        (vc_tick 100)
       = runFrom powerOn [cpuWrite lcdcAddr 0x80, vc_tick 457, cpuWrite lcdcAddr 0x00]
   \<and> bindE (runFrom powerOn [cpuWrite lcdcAddr 0x80, vc_tick 457, cpuWrite lcdcAddr 0x00])
        frameTickAndLY = Inr (457, 0x01)
   \<and> bindE (runFrom powerOn [cpuWrite lcdcAddr 0x80, vc_tick 457, cpuWrite lcdcAddr 0x00, vc_tick 100])
        frameTickAndLY = Inr (457, 0x01)"
proof -
  have ne: "(0x00::byte) AND 0x80 \<noteq> 0x80" by simp
  have b0: "runFrom powerOn [] = Inr bootState"
    by (simp only: runFrom_def powerOn_eq bindE_Inr runAll.simps)
  have lc0: "at (mmu bootState) lcdcAddr = Inr 0x00"
    using io_reads(1)[OF bootState_wf] by (simp add: bootState_def)
  have f0: "frameTickAndLY bootState = Inr (0, 0x00)"
    using io_reads(5)[OF bootState_wf]
    by (simp add: frameTickAndLY_def bootState_def newVideoController_def)
  have n0: "vc_tick 100 bootState = Inr bootState
      \<and> bindE (vc_tick 100 bootState) frameTickAndLY = frameTickAndLY bootState"
    by (rule C4_lcd_off_tick_is_noop [OF lc0 ne])
  have r0: "runFrom powerOn [vc_tick 100] = Inr bootState"
    using n0 by (simp add: runFrom_def powerOn_eq)
  obtain s1 where s1: "runFrom powerOn [cpuWrite lyAddr 0x05] = Inr s1"
      "at (mmu s1) lcdcAddr = Inr 0x00" "frameTickAndLY s1 = Inr (0, 0x05)"
    by (rule lyWritten_reached)
  have n1: "vc_tick 100 s1 = Inr s1
      \<and> bindE (vc_tick 100 s1) frameTickAndLY = frameTickAndLY s1"
    by (rule C4_lcd_off_tick_is_noop [OF s1(2) ne])
  have r1: "runFrom powerOn [cpuWrite lyAddr 0x05, vc_tick 100] = Inr s1"
    using runFrom_snoc[of powerOn "[cpuWrite lyAddr 0x05]" "vc_tick 100"] s1(1) n1 by simp
  obtain s2 where s2:
      "runFrom powerOn [cpuWrite lcdcAddr 0x80, vc_tick 457, cpuWrite lcdcAddr 0x00] = Inr s2"
      "at (mmu s2) lcdcAddr = Inr 0x00" "frameTickAndLY s2 = Inr (457, 0x01)"
    by (rule lcdOff_reached)
  have n2: "vc_tick 100 s2 = Inr s2
      \<and> bindE (vc_tick 100 s2) frameTickAndLY = frameTickAndLY s2"
    by (rule C4_lcd_off_tick_is_noop [OF s2(2) ne])
  have r2: "runFrom powerOn [cpuWrite lcdcAddr 0x80, vc_tick 457, cpuWrite lcdcAddr 0x00, vc_tick 100] = Inr s2"
    using runFrom_snoc[of powerOn "[cpuWrite lcdcAddr 0x80, vc_tick 457, cpuWrite lcdcAddr 0x00]" "vc_tick 100"]
      s2(1) n2 by simp
  show ?thesis
    unfolding b0 r0 r1 r2 s1(1) s2(1)
    using ne lc0 f0 n0 s1(2,3) n1 s2(2,3) n2 by (simp add: readByte_def)
qed

end
